theory Spec2Isabelle
  imports
    Complex_Main
    "HOL-Library.Multiset"
    "HOL-Library.Sublist"
    "HOL-Library.Char_ord"
    "HOL-Library.List_Lexorder"
begin

section \<open>Python values and library functions used by the sources\<close>

text \<open>
  The sources are \<^verbatim>\<open>counting_boats/utils/classifier.py\<close> and
  \<^verbatim>\<open>counting_boats/utils/image_cutting_support.py\<close>. A float64 is idealised as a
  \<^typ>\<open>real\<close> (finite values only: no NaN, no infinity, no rounding), a Python
  \<^verbatim>\<open>int\<close> is an \<^typ>\<open>int\<close> or, where the source only counts, a \<^typ>\<open>nat\<close>.
  Every exception a modelled statement can raise is a value of \<open>py_error\<close>.
\<close>

datatype py_error =
    ValueError
  | IndexError
  | FileNotFoundError
  | ZeroDivisionError
  | PyException string

subsection \<open>Strings\<close>

text \<open>
  \<^verbatim>\<open>s.split(sep)\<close> for a non-empty separator: the pieces between the
  non-overlapping occurrences of \<open>sep\<close>, scanned from the left; the result is never
  empty. (Python raises on an empty separator; the sources only pass constants.)
\<close>

function split_acc :: "string \<Rightarrow> string \<Rightarrow> string \<Rightarrow> string list" where
  "split_acc sep acc [] = [rev acc]"
| "split_acc sep acc (c # cs) =
     (if sep \<noteq> [] \<and> take (length sep) (c # cs) = sep
      then rev acc # split_acc sep [] (drop (length sep) (c # cs))
      else split_acc sep (c # acc) cs)"
  by pat_completeness auto
termination
  by (relation "measure (\<lambda>(sep, acc, s). length s)") auto

definition str_split :: "string \<Rightarrow> string \<Rightarrow> string list" where
  "str_split sep s = split_acc sep [] s"

text \<open>
  \<^verbatim>\<open>s.rstrip()\<close> and \<^verbatim>\<open>s.strip()\<close>: whitespace removed at the end, and at
  both ends. The whitespace characters are those of ASCII (space, tab, line feed,
  vertical tab, form feed, carriage return and the four separators \<open>0x1C\<close> to
  \<open>0x1F\<close>).
\<close>

definition is_space :: "char \<Rightarrow> bool" where
  "is_space c \<longleftrightarrow>
     c \<in> set [CHR '' '', CHR 0x09, CHR 0x0A, CHR 0x0B, CHR 0x0C, CHR 0x0D,
              CHR 0x1C, CHR 0x1D, CHR 0x1E, CHR 0x1F]"

definition rstrip :: "string \<Rightarrow> string" where
  "rstrip s = rev (dropWhile is_space (rev s))"

definition strip :: "string \<Rightarrow> string" where
  "strip s = rstrip (dropWhile is_space s)"

text \<open>\<^verbatim>\<open>os.path.basename\<close> on a POSIX path: what follows the last slash.\<close>

definition basename :: "string \<Rightarrow> string" where
  "basename p = rev (takeWhile (\<lambda>c. c \<noteq> CHR ''/'') (rev p))"

text \<open>\<^verbatim>\<open>sep.join(xs)\<close>.\<close>

fun str_join :: "string \<Rightarrow> string list \<Rightarrow> string" where
  "str_join sep [] = []"
| "str_join sep [x] = x"
| "str_join sep (x # y # ys) = x @ sep @ str_join sep (y # ys)"

subsection \<open>Numbers read from text\<close>

definition is_digit :: "char \<Rightarrow> bool" where
  "is_digit c \<longleftrightarrow> c \<in> set ''0123456789''"

definition digit_of :: "char \<Rightarrow> nat" where
  "digit_of c = of_char c - 48"

definition nat_of_digits :: "string \<Rightarrow> nat" where
  "nat_of_digits s = foldl (\<lambda>n c. 10 * n + digit_of c) 0 s"

definition strip_sign :: "string \<Rightarrow> bool \<times> string" where
  "strip_sign s =
     (case s of
        [] \<Rightarrow> (False, s)
      | c # r \<Rightarrow> if c = CHR ''-'' then (True, r)
                 else if c = CHR ''+'' then (False, r)
                 else (False, s))"

text \<open>
  \<^verbatim>\<open>int(s)\<close> on text: surrounding whitespace, an optional sign and at least one
  decimal digit; anything else is a \<^verbatim>\<open>ValueError\<close>. (Python also accepts
  underscores between digits, which cannot occur in the pieces of a name split at
  underscores.)
\<close>

definition signed_digits :: "string \<Rightarrow> int option" where
  "signed_digits s =
     (let (neg, ds) = strip_sign s in
      if ds \<noteq> [] \<and> list_all is_digit ds
      then Some (if neg then - int (nat_of_digits ds) else int (nat_of_digits ds))
      else None)"

definition py_int :: "string \<Rightarrow> py_error + int" where
  "py_int s = (case signed_digits (strip s) of None \<Rightarrow> Inl ValueError | Some k \<Rightarrow> Inr k)"

text \<open>
  Text to float64, as \<^verbatim>\<open>astype(np.float64)\<close> does on an array of strings:
  surrounding whitespace, an optional sign, digits with an optional point, an optional
  exponent. The texts \<^verbatim>\<open>inf\<close> and \<^verbatim>\<open>nan\<close>, whose values are no real
  numbers, are not modelled and read as errors.
\<close>

definition unsigned_decimal :: "string \<Rightarrow> real option" where
  "unsigned_decimal s =
     (let ip = takeWhile (\<lambda>c. c \<noteq> CHR ''.'') s;
          fp = drop 1 (dropWhile (\<lambda>c. c \<noteq> CHR ''.'') s)
      in if ip @ fp \<noteq> [] \<and> list_all is_digit (ip @ fp)
         then Some (real (nat_of_digits (ip @ fp)) / 10 ^ length fp)
         else None)"

definition exponent_of :: "string \<Rightarrow> int option" where
  "exponent_of ex =
     (case ex of
        [] \<Rightarrow> Some 0
      | _ # r \<Rightarrow> signed_digits r)"

definition py_float :: "string \<Rightarrow> py_error + real" where
  "py_float s =
     (let (neg, body) = strip_sign (strip s);
          mant = takeWhile (\<lambda>c. c \<noteq> CHR ''e'' \<and> c \<noteq> CHR ''E'') body;
          ex = dropWhile (\<lambda>c. c \<noteq> CHR ''e'' \<and> c \<noteq> CHR ''E'') body
      in case (unsigned_decimal mant, exponent_of ex) of
           (Some m, Some k) \<Rightarrow>
             Inr ((if neg then - 1 else 1) * m *
                  (if 0 \<le> k then 10 ^ nat k else 1 / 10 ^ nat (- k)))
         | _ \<Rightarrow> Inl ValueError)"

section \<open>Day batches (\<^verbatim>\<open>get_date_from_filename\<close>, \<^verbatim>\<open>classify_directory\<close>)\<close>

text \<open>
  \<^verbatim>\<open>get_date_from_filename\<close> returns \<^verbatim>\<open>None\<close> unless the text before the
  first underscore has eight characters, and otherwise \<^verbatim>\<open>dd/mm/yyyy\<close>. The
  result of a split is never empty (lemma \<open>str_split_nonempty\<close>), so \<open>hd\<close> is
  its element \<open>0\<close>.
\<close>

definition get_date_from_filename :: "string \<Rightarrow> string option" where
  "get_date_from_filename filename =
     (let str_date = hd (str_split ''_'' filename) in
      if length str_date \<noteq> 8 then None
      else Some (take 2 (drop 6 str_date) @ ''/'' @ take 2 (drop 4 str_date) @ ''/''
                 @ take 4 str_date))"

text \<open>
  \<^verbatim>\<open>classify_directory\<close> builds the set of days of the directory listing, discards
  \<^verbatim>\<open>None\<close>, and pairs every day with the files of that day. A Python set has no
  specified iteration order; the list \<open>days_of\<close> fixes one, and nothing below depends
  on which.
\<close>

definition days_of :: "string list \<Rightarrow> string list" where
  "days_of listing = remdups (List.map_filter get_date_from_filename listing)"

definition daily_data :: "string list \<Rightarrow> (string list \<times> string) list" where
  "daily_data listing =
     map (\<lambda>day. (filter (\<lambda>file. get_date_from_filename file = Some day) listing, day))
         (days_of listing)"

section \<open>Detections\<close>

text \<open>
  A row of a detection array, with the columns in the order the parser leaves them:
  \<^verbatim>\<open>xMid, yMid, Confidence, Class, xWid, yWid\<close>. A list of rows models an array
  of shape \<open>(n, 6)\<close>; the record \<open>boat\<close> adds the seventh column of image names
  that \<^verbatim>\<open>process_tif\<close> appends.
\<close>

record det =
  x_mid :: real
  y_mid :: real
  conf :: real
  cls :: real
  x_wid :: real
  y_wid :: real

record boat = det +
  images :: string


section \<open>Label files (\<^verbatim>\<open>classification_file_info\<close>, \<^verbatim>\<open>parse_classifications\<close>)\<close>

text \<open>
  The two constants the module reads from the configuration file.
\<close>

record config =
  TILE_SIZE :: int
  STRIDE :: int

text \<open>
  The file system: a path gives the lines that iterating over the open file yields, or
  \<open>None\<close> where there is no file, in which case \<^verbatim>\<open>open\<close> raises
  \<^verbatim>\<open>FileNotFoundError\<close>.
\<close>

type_synonym filesystem = "string \<Rightarrow> string list option"

text \<open>A list of results in order, up to the first exception.\<close>

fun sequence :: "(py_error + 'a) list \<Rightarrow> py_error + 'a list" where
  "sequence [] = Inr []"
| "sequence (r # rs) =
     (case r of
        Inl e \<Rightarrow> Inl e
      | Inr v \<Rightarrow> (case sequence rs of Inl e \<Rightarrow> Inl e | Inr vs \<Rightarrow> Inr (v # vs)))"

text \<open>
  \<^verbatim>\<open>fname[-2]\<close> raises \<^verbatim>\<open>IndexError\<close> on a name with no underscore; the two
  \<^verbatim>\<open>int\<close> conversions come next, and the file is opened last.
\<close>

definition classification_file_info ::
  "config \<Rightarrow> filesystem \<Rightarrow> string \<Rightarrow> py_error + int \<times> int \<times> string list" where
  "classification_file_info cfg fs file =
     (let fname = str_split ''_'' (hd (str_split ''.txt'' (basename file))) in
      if length fname < 2 then Inl IndexError
      else
        case py_int (fname ! (length fname - 2)) of
          Inl e \<Rightarrow> Inl e
        | Inr row \<Rightarrow>
            (case py_int (fname ! (length fname - 1)) of
               Inl e \<Rightarrow> Inl e
             | Inr col \<Rightarrow>
                 let across = col * STRIDE cfg;
                     down = row * STRIDE cfg
                 in (case fs file of
                       None \<Rightarrow> Inl FileNotFoundError
                     | Some f \<Rightarrow> Inr (across, down, map rstrip f))))"

text \<open>
  \<^verbatim>\<open>np.array\<close> of a list of lists of strings: a two-dimensional array when all rows
  have the same length; on rows of different lengths NumPy (from 1.24) raises
  \<^verbatim>\<open>ValueError\<close>. (Older versions build a one-dimensional array of objects, on
  which \<^verbatim>\<open>shape[1]\<close> raises \<^verbatim>\<open>IndexError\<close>: an exception either way.)
\<close>

definition np_array :: "'a list list \<Rightarrow> py_error + 'a list list" where
  "np_array rows =
     (if list_all (\<lambda>r. length r = length (hd rows)) rows then Inr rows else Inl ValueError)"

text \<open>\<^verbatim>\<open>shape[1]\<close> of a two-dimensional array with at least one row.\<close>

definition ncols :: "'a list list \<Rightarrow> nat" where
  "ncols rows = length (hd rows)"

text \<open>\<^verbatim>\<open>astype(np.float64)\<close> on a two-dimensional array of strings.\<close>

definition astype_float :: "string list list \<Rightarrow> py_error + real list list" where
  "astype_float rows = sequence (map (\<lambda>r. sequence (map py_float r)) rows)"

definition parse_classifications :: "config \<Rightarrow> filesystem \<Rightarrow> string \<Rightarrow> py_error + det list" where
  "parse_classifications cfg fs file =
     (case classification_file_info cfg fs file of
        Inl e \<Rightarrow> Inl e
      | Inr (across, down, lines) \<Rightarrow>
          (if length lines = 0 then Inr []
           else
             (case np_array (map (str_split '' '') lines) of
                Inl e \<Rightarrow> Inl e
              | Inr split_lines \<Rightarrow>
                  (let classifications =
                        (if ncols split_lines = 5 then map (\<lambda>r. r @ [''1.0'']) split_lines
                         else split_lines)
                   in if ncols classifications < 6 then Inl IndexError
                      else
                        (case astype_float
                                (map (\<lambda>r. [r ! 1, r ! 2, r ! 5, r ! 0, r ! 3, r ! 4])
                                   classifications) of
                           Inl e \<Rightarrow> Inl e
                         | Inr floats \<Rightarrow>
                             Inr (map (\<lambda>r.
                                    \<lparr>x_mid = r ! 0 * real_of_int (TILE_SIZE cfg) + real_of_int across,
                                     y_mid = r ! 1 * real_of_int (TILE_SIZE cfg) + real_of_int down,
                                     conf = r ! 2,
                                     cls = r ! 3,
                                     x_wid = r ! 4 * real_of_int (TILE_SIZE cfg),
                                     y_wid = r ! 5 * real_of_int (TILE_SIZE cfg)\<rparr>)
                                  floats))))))"

section \<open>Tiling (\<^verbatim>\<open>segment_image_for_classification\<close>)\<close>

text \<open>
  The padded image: its size and, for every pixel, whether \<^verbatim>\<open>getpixel\<close> returns
  \<^verbatim>\<open>(0, 0, 0)\<close>. All reads of the loop below are inside the image (lemma
  \<open>tiles_inside_image\<close>), so \<^verbatim>\<open>getpixel\<close> never raises there.
  \<^verbatim>\<open>segment_image\<close>, which cuts the training images, has the same checks and the
  same two loops; it also drops tiles at random and writes label files, which is not
  modelled.
\<close>

record image =
  img_width :: nat
  img_height :: nat
  black :: "nat \<Rightarrow> nat \<Rightarrow> bool"

text \<open>
  A tile the function saves: the indices \<open>i\<close> and \<open>j\<close> of its file name
  \<^verbatim>\<open>_i_j.png\<close> and the box \<^verbatim>\<open>(left, top, right, bottom)\<close> it is cropped to.
\<close>

record tile =
  tile_row :: nat
  tile_col :: nat
  crop_left :: nat
  crop_top :: nat
  crop_right :: nat
  crop_bottom :: nat

text \<open>
  A \<^verbatim>\<open>for\<close> loop whose body writes output (here: saves tiles) and may raise: what
  was written so far stays written, and the first exception ends the loop.
\<close>

fun for_loop :: "('i \<Rightarrow> 'a list \<times> py_error option) \<Rightarrow> 'i list \<Rightarrow> 'a list \<times> py_error option" where
  "for_loop body [] = ([], None)"
| "for_loop body (i # is) =
     (case body i of
        (saved, Some e) \<Rightarrow> (saved, Some e)
      | (saved, None) \<Rightarrow> (case for_loop body is of (later, r) \<Rightarrow> (saved @ later, r)))"

text \<open>\<^verbatim>\<open>range(0, tile_size - 1, 8)\<close>; empty when \<open>tile_size \<le> 1\<close>.\<close>

definition border_samples :: "nat \<Rightarrow> nat list" where
  "border_samples tile_size = map (\<lambda>k. 8 * k) [0..<(tile_size - 1 + 7) div 8]"

text \<open>
  The body of the inner loop for the tile at row \<open>i\<close> and column \<open>j\<close>. The border is
  sampled every eighth pixel on the four edges; each sample adds one to
  \<^verbatim>\<open>total\<close> and, when black, one to \<^verbatim>\<open>percentageEmpty\<close>. With no sample
  the quotient raises \<^verbatim>\<open>ZeroDivisionError\<close>; above \<open>0.93\<close> the tile is skipped.
\<close>

definition tile_body :: "image \<Rightarrow> nat \<Rightarrow> nat \<Rightarrow> nat \<Rightarrow> nat \<Rightarrow> tile list \<times> py_error option" where
  "tile_body openImage tile_size stride i j =
     (let left = j * stride;
          top = i * stride;
          right = left + tile_size;
          bottom = top + tile_size;
          percentageEmpty =
            (\<Sum>f \<leftarrow> border_samples tile_size.
               of_bool (black openImage (left + f) top)
               + of_bool (black openImage left (top + f))
               + of_bool (black openImage (right - 1) (top + f))
               + of_bool (black openImage (left + f) (bottom - 1)) :: nat);
          total = 4 * length (border_samples tile_size)
      in if total = 0 then ([], Some ZeroDivisionError)
         else if real percentageEmpty / real total > 93 / 100 then ([], None)
         else ([\<lparr>tile_row = i, tile_col = j, crop_left = left, crop_top = top,
                 crop_right = right, crop_bottom = bottom\<rparr>], None))"

text \<open>
  After each row the function prints a progress figure computed as
  \<^verbatim>\<open>i / ((height / stride) - 5)\<close>, which raises \<^verbatim>\<open>ZeroDivisionError\<close> when
  the height is five strides.
\<close>

definition row_body :: "image \<Rightarrow> nat \<Rightarrow> nat \<Rightarrow> nat \<Rightarrow> tile list \<times> py_error option" where
  "row_body openImage tile_size stride i =
     (case for_loop (tile_body openImage tile_size stride i)
             [0..<1 + img_width openImage div stride - tile_size div stride] of
        (saved, Some e) \<Rightarrow> (saved, Some e)
      | (saved, None) \<Rightarrow>
          if img_height openImage div stride = 5 then (saved, Some ZeroDivisionError)
          else (saved, None))"

text \<open>
  The two \<^verbatim>\<open>range\<close>s are empty when their bound is not positive, which the
  truncating subtraction of \<^typ>\<open>nat\<close> gives; \<^verbatim>\<open>int(height / stride)\<close> is
  the exact quotient once the divisibility checks have passed. A stride of zero makes
  the first \<^verbatim>\<open>%\<close> raise.
\<close>

definition segment_image_for_classification ::
  "image \<Rightarrow> nat \<Rightarrow> nat \<Rightarrow> tile list \<times> py_error option" where
  "segment_image_for_classification openImage tile_size stride =
     (if stride = 0 then ([], Some ZeroDivisionError)
      else if img_width openImage mod stride \<noteq> 0 \<or> img_height openImage mod stride \<noteq> 0
      then ([], Some (PyException
              ''The image is not exactly divisible by the desired size of subset images''))
      else if tile_size mod stride \<noteq> 0
      then ([], Some (PyException
              ''The subset image size indicated is not divisible by the input overlap size''))
      else for_loop (row_body openImage tile_size stride)
             [0..<img_height openImage div stride - tile_size div stride])"

section \<open>Clustering and condensing (\<^verbatim>\<open>cluster\<close>, \<^verbatim>\<open>condense\<close>, \<^verbatim>\<open>process_clusters\<close>)\<close>

text \<open>
  For two or more rows \<^verbatim>\<open>cluster\<close> hands the points to SciPy
  (\<^verbatim>\<open>pdist\<close>, \<^verbatim>\<open>linkage\<close> with average linkage, \<^verbatim>\<open>fcluster\<close> with
  the distance criterion), which is no code of this repository. The parameter
  \<open>fcluster\<close> stands for that composition: from the points and the cutoff to one
  cluster id per point. The rows come back paired with their cluster id, the column the
  source appends.
\<close>

type_synonym flat_clustering = "(real \<times> real) list \<Rightarrow> real \<Rightarrow> nat list"

definition cluster ::
  "flat_clustering \<Rightarrow> ('a det_scheme) list \<Rightarrow> real \<Rightarrow> ('a det_scheme \<times> nat) list" where
  "cluster fcluster classifications cutoff =
     (if length classifications < 2
      then (if length classifications = 1 then [(classifications ! 0, 1)] else [])
      else
        let points = map (\<lambda>c. (x_mid c, y_mid c)) classifications;
            clusters = fcluster points cutoff
        in zip classifications clusters)"

text \<open>\<^verbatim>\<open>np.mean\<close> of a column.\<close>

definition mean :: "real list \<Rightarrow> real" where
  "mean vs = sum_list vs / real (length vs)"

text \<open>
  \<^verbatim>\<open>scipy.stats.mode(v)[0]\<close>: the distinct values in increasing order with their
  counts (\<^verbatim>\<open>np.unique\<close>), and the value at the first position where the count is
  largest (\<^verbatim>\<open>argmax\<close>). The module imports \<^verbatim>\<open>scipy.cluster\<close> and
  \<^verbatim>\<open>scipy.spatial\<close> only; \<^verbatim>\<open>scipy.stats\<close> is taken to be reachable, as it
  is where SciPy loads its submodules on first use.
\<close>

definition argmax :: "nat list \<Rightarrow> nat" where
  "argmax cnts = length (takeWhile (\<lambda>c. c \<noteq> Max (set cnts)) cnts)"

definition stats_mode :: "real list \<Rightarrow> real" where
  "stats_mode vs =
     (let vals = sort (remdups vs);
          cnts = map (count_list vs) vals
      in vals ! argmax cnts)"

text \<open>
  The six numeric columns of the condensed row (\<^verbatim>\<open>thisBoatMean\<close>); \<open>rows\<close> is
  the source's argument \<^verbatim>\<open>cluster\<close>. On an empty cluster \<^verbatim>\<open>np.max\<close> raises
  \<^verbatim>\<open>ValueError\<close>.
\<close>

definition condense :: "('a det_scheme) list \<Rightarrow> py_error + det" where
  "condense rows =
     (if rows = [] then Inl ValueError
      else Inr \<lparr>x_mid = mean (map x_mid rows),
                y_mid = mean (map y_mid rows),
                conf = Max (set (map conf rows)),
                cls = stats_mode (map cls rows),
                x_wid = mean (map x_wid rows),
                y_wid = mean (map y_wid rows)\<rparr>)"

text \<open>
  With the column of image names (an array of eight columns) \<^verbatim>\<open>condense\<close>
  appends the distinct names, sorted and joined by spaces.
\<close>

definition condense_named :: "boat list \<Rightarrow> py_error + boat" where
  "condense_named rows =
     (case condense rows of
        Inl e \<Rightarrow> Inl e
      | Inr thisBoatMean \<Rightarrow>
          let files = sort (remdups (map images rows))
          in Inr \<lparr>x_mid = x_mid thisBoatMean, y_mid = y_mid thisBoatMean,
                  conf = conf thisBoatMean, cls = cls thisBoatMean,
                  x_wid = x_wid thisBoatMean, y_wid = y_wid thisBoatMean,
                  images = str_join '' '' files\<rparr>)"

text \<open>
  \<^verbatim>\<open>process_clusters\<close> condenses the rows of each cluster id, the ids taken in the
  order of \<^verbatim>\<open>np.unique\<close>. On the numeric array of \<^verbatim>\<open>process_tif\<close> that order
  is numeric. On the array of \<^verbatim>\<open>process_day\<close>, which holds strings since the image
  names were appended, the ids are ordered as decimal strings.
\<close>

definition process_clusters :: "(det \<times> nat) list \<Rightarrow> py_error + det list" where
  "process_clusters classifications_with_clusters =
     (if length classifications_with_clusters = 0 then Inr []
      else sequence
             (map (\<lambda>i. condense (map fst (filter (\<lambda>r. snd r = i) classifications_with_clusters)))
                (sort (remdups (map snd classifications_with_clusters)))))"

text \<open>\<^verbatim>\<open>str(n)\<close> for a number that is not negative.\<close>

fun decimal :: "nat \<Rightarrow> string" where
  "decimal n =
     (if n < 10 then [''0123456789'' ! n]
      else decimal (n div 10) @ [''0123456789'' ! (n mod 10)])"

declare decimal.simps [simp del]

definition process_clusters_named :: "(boat \<times> nat) list \<Rightarrow> py_error + boat list" where
  "process_clusters_named classifications_with_clusters =
     (if length classifications_with_clusters = 0 then Inr []
      else sequence
             (map (\<lambda>i. condense_named
                          (map fst (filter (\<lambda>r. snd r = i) classifications_with_clusters)))
                (sort_key decimal (remdups (map snd classifications_with_clusters)))))"

section \<open>A day of rasters (\<^verbatim>\<open>process_day\<close>)\<close>

text \<open>
  \<^verbatim>\<open>process_tif\<close> runs the external detector on one raster; here it is the
  parameter \<open>process_tif\<close>, from the file name to the static and the moving boats of
  that raster, or to the exception it raised. \<open>day_boats\<close> is the part of
  \<^verbatim>\<open>process_day\<close> up to the two arrays that it passes to \<^verbatim>\<open>cluster\<close>:
  the list comprehension over the files, \<^verbatim>\<open>zip(*...)\<close>, whose unpacking raises
  \<^verbatim>\<open>ValueError\<close> on no file, and the two subscripts \<^verbatim>\<open>[0]\<close>.
\<close>

definition day_boats ::
  "(string \<Rightarrow> py_error + boat list \<times> boat list) \<Rightarrow> string list
   \<Rightarrow> py_error + boat list \<times> boat list" where
  "day_boats process_tif files =
     (case sequence (map process_tif files) of
        Inl e \<Rightarrow> Inl e
      | Inr results \<Rightarrow>
          if results = [] then Inl ValueError
          else
            let all_static_boats = map fst results;
                all_moving_boats = map snd results
            in Inr (all_static_boats ! 0, all_moving_boats ! 0))"

definition process_day ::
  "(string \<Rightarrow> py_error + boat list \<times> boat list) \<Rightarrow> flat_clustering \<Rightarrow> real \<Rightarrow> real
   \<Rightarrow> string list \<Rightarrow> string \<Rightarrow> py_error + boat list \<times> boat list \<times> string" where
  "process_day process_tif fcluster STAT_DISTANCE_CUTOFF_LATLONG MOVING_DISTANCE_CUTOFF_LATLONG
               files day =
     (case day_boats process_tif files of
        Inl e \<Rightarrow> Inl e
      | Inr (all_static_boats, all_moving_boats) \<Rightarrow>
          (case process_clusters_named
                  (cluster fcluster all_static_boats STAT_DISTANCE_CUTOFF_LATLONG) of
             Inl e \<Rightarrow> Inl e
           | Inr static_boats \<Rightarrow>
               (case process_clusters_named
                       (cluster fcluster all_moving_boats MOVING_DISTANCE_CUTOFF_LATLONG) of
                  Inl e \<Rightarrow> Inl e
                | Inr moving_boats \<Rightarrow> Inr (static_boats, moving_boats, day))))"

text \<open>
  \<^verbatim>\<open>classify_directory\<close> processes the day batches one after the other and appends
  the boats of each day to the CSV file: the result is what was written, day by day, and
  the exception that ended the run, if any. (The index of the day and the number of days
  only go into a progress message.)
\<close>

definition classify_directory ::
  "(string \<Rightarrow> py_error + boat list \<times> boat list) \<Rightarrow> flat_clustering \<Rightarrow> real \<Rightarrow> real
   \<Rightarrow> string list \<Rightarrow> (boat list \<times> boat list \<times> string) list \<times> py_error option" where
  "classify_directory process_tif fcluster STAT_DISTANCE_CUTOFF_LATLONG
                      MOVING_DISTANCE_CUTOFF_LATLONG listing =
     for_loop
       (\<lambda>(files, day).
          case process_day process_tif fcluster STAT_DISTANCE_CUTOFF_LATLONG
                 MOVING_DISTANCE_CUTOFF_LATLONG files day of
            Inl e \<Rightarrow> ([], Some e)
          | Inr written \<Rightarrow> ([written], None))
       (daily_data listing)"

section \<open>Affine georeferencing (\<^verbatim>\<open>pixel2coord\<close>, \<^verbatim>\<open>coord2pixel\<close>)\<close>

text \<open>
  The six coefficients in the order \<^verbatim>\<open>GetGeoTransform\<close> returns them and the
  source unpacks them: \<^verbatim>\<open>c, a, b, f, d, e\<close>. Opening the raster is left to the
  caller, who passes the coefficients.
\<close>

type_synonym geotransform = "real \<times> real \<times> real \<times> real \<times> real \<times> real"

definition pixel2coord :: "real \<Rightarrow> real \<Rightarrow> geotransform \<Rightarrow> real \<times> real" where
  "pixel2coord px py gt =
     (case gt of (c, a, b, f, d, e) \<Rightarrow>
        let xp = a * px + b * py + a * 0.5 + b * 0.5 + c;
            yp = d * px + e * py + d * 0.5 + e * 0.5 + f
        in (xp, yp))"

text \<open>Dividing a Python float by zero raises \<^verbatim>\<open>ZeroDivisionError\<close>.\<close>

definition coord2pixel :: "real \<Rightarrow> real \<Rightarrow> geotransform \<Rightarrow> py_error + real \<times> real" where
  "coord2pixel cx cy gt =
     (case gt of (c, a, b, f, d, e) \<Rightarrow>
        if a = 0 then Inl ZeroDivisionError
        else if e = 0 then Inl ZeroDivisionError
        else
          let xp = (cx - b * cy - a * 0.5 - b * 0.5 - c) / a;
              yp = (cy - d * cx - d * 0.5 - e * 0.5 - f) / e
          in Inr (xp, yp))"

section \<open>Example inputs\<close>

text \<open>The configuration of the specification's scenarios: tiles of 416 pixels, stride 104.\<close>

definition example_config :: config where
  "example_config = \<lparr>TILE_SIZE = 416, STRIDE = 104\<rparr>"

text \<open>A file system with no file, and one with a single file.\<close>

definition no_file :: filesystem where
  "no_file = (\<lambda>path. None)"

definition one_file :: "string \<Rightarrow> string list \<Rightarrow> filesystem" where
  "one_file name f = (\<lambda>path. if path = name then Some f else None)"

text \<open>An image with no black pixel.\<close>

definition plain_image :: "nat \<Rightarrow> nat \<Rightarrow> image" where
  "plain_image width height = \<lparr>img_width = width, img_height = height, black = (\<lambda>px py. False)\<rparr>"

text \<open>
  Two rasters of the same day, each with one static boat and no moving boat, as
  \<^verbatim>\<open>process_tif\<close> returns them.
\<close>

definition boat_a :: boat where
  "boat_a = \<lparr>x_mid = 153, y_mid = - 27, conf = 9 / 10, cls = 0, x_wid = 12, y_wid = 12,
             images = ''20230102_a.tif''\<rparr>"

definition boat_b :: boat where
  "boat_b = \<lparr>x_mid = 154, y_mid = - 28, conf = 4 / 5, cls = 0, x_wid = 12, y_wid = 12,
             images = ''20230102_b.tif''\<rparr>"

definition two_rasters :: "string \<Rightarrow> py_error + boat list \<times> boat list" where
  "two_rasters file =
     (if file = ''20230102_a.tif'' then Inr ([boat_a], [])
      else if file = ''20230102_b.tif'' then Inr ([boat_b], [])
      else Inl FileNotFoundError)"

section \<open>Properties\<close>

lemma split_acc_nonempty: "split_acc sep acc s \<noteq> []"
  by (induction sep acc s rule: split_acc.induct) auto

lemma str_split_nonempty: "str_split sep s \<noteq> []"
  by (simp add: str_split_def split_acc_nonempty)


subsection \<open>Round trip through the geotransform\<close>

text \<open>
  For a north-up geotransform (no rotation terms: \<open>b = 0\<close> and \<open>d = 0\<close>, with
  \<open>a\<close> and \<open>e\<close> not zero) \<^verbatim>\<open>coord2pixel\<close> undoes \<^verbatim>\<open>pixel2coord\<close>.
\<close>

lemma coord2pixel_pixel2coord_north_up:
  assumes "a \<noteq> 0" and "e \<noteq> 0"
  shows "(case pixel2coord px py (c, a, 0, f, 0, e) of
            (X, Y) \<Rightarrow> coord2pixel X Y (c, a, 0, f, 0, e)) = Inr (px, py)"
  using assms by (simp add: pixel2coord_def coord2pixel_def Let_def field_simps)

text \<open>
  Claim C1. The claim: for every geotransform with \<open>a*e - b*d \<noteq> 0\<close> and every pixel,
  \<^verbatim>\<open>coord2pixel\<close> applied to the result of \<^verbatim>\<open>pixel2coord\<close> gives the pixel
  back. The code does not: with the sheared geotransform
  \<open>(c, a, b, f, d, e) = (0, 1, 1, 0, 0, 1)\<close>, whose determinant is \<open>1\<close>, pixel
  \<open>(0, 0)\<close> is sent to \<open>(1, 1/2)\<close> and from there to \<open>(-1/2, 0)\<close>, half a pixel away
  from where it started. \<^verbatim>\<open>coord2pixel\<close> subtracts \<open>b\<close> times the projected
  \<open>y\<close> where the inverse needs \<open>b\<close> times the pixel \<open>y\<close>.
\<close>

theorem coord2pixel_not_inverse_when_sheared:
  "(1::real) * 1 - 1 * 0 \<noteq> 0
   \<and> pixel2coord 0 0 (0, 1, 1, 0, 0, 1) = (1, 1 / 2)
   \<and> coord2pixel 1 (1 / 2) (0, 1, 1, 0, 0, 1) = Inr (- 1 / 2, 0)
   \<and> (case pixel2coord 0 0 (0, 1, 1, 0, 0, 1) of
         (X, Y) \<Rightarrow> coord2pixel X Y (0, 1, 1, 0, 0, 1)) \<noteq> Inr (0, 0)"
  by (simp add: pixel2coord_def coord2pixel_def Let_def)

subsection \<open>Files without a date\<close>

lemma undated_map_filter:
  "get_date_from_filename file = None \<Longrightarrow>
     List.map_filter get_date_from_filename (removeAll file listing)
       = List.map_filter get_date_from_filename listing"
  by (induction listing) (auto simp: List.map_filter_simps split: option.splits)

lemma undated_filter:
  "get_date_from_filename file = None \<Longrightarrow>
     filter (\<lambda>f. get_date_from_filename f = Some day) (removeAll file listing)
       = filter (\<lambda>f. get_date_from_filename f = Some day) listing"
  by (induction listing) auto

text \<open>
  Claim C9. A file whose name has, before its first underscore, a segment that is not
  eight characters long has the date \<^verbatim>\<open>None\<close>; it is in the file list of no day
  batch that \<^verbatim>\<open>classify_directory\<close> builds, whatever the directory listing; and
  the batches, hence all that \<^verbatim>\<open>classify_directory\<close> writes and the exception it
  ends with, if any, are the same as for the directory without the file: the file is
  not processed and nothing is reported for it.
\<close>

theorem undated_file_in_no_day_batch:
  assumes "length (hd (str_split ''_'' file)) \<noteq> 8"
  shows "get_date_from_filename file = None
         \<and> (\<forall>(files, day) \<in> set (daily_data listing). file \<notin> set files)
         \<and> daily_data (removeAll file listing) = daily_data listing
         \<and> classify_directory process_tif fcluster stat_cutoff moving_cutoff
              (removeAll file listing)
            = classify_directory process_tif fcluster stat_cutoff moving_cutoff listing"
proof -
  from assms have none: "get_date_from_filename file = None"
    by (simp add: get_date_from_filename_def)
  then have batches: "\<forall>(files, day) \<in> set (daily_data listing). file \<notin> set files"
    by (auto simp: daily_data_def)
  from none have same: "daily_data (removeAll file listing) = daily_data listing"
    by (simp add: daily_data_def days_of_def undated_map_filter undated_filter)
  then have "classify_directory process_tif fcluster stat_cutoff moving_cutoff
               (removeAll file listing)
             = classify_directory process_tif fcluster stat_cutoff moving_cutoff listing"
    by (simp add: classify_directory_def)
  with none batches same show ?thesis by blast
qed

theorem undated_file_in_no_day_batch_witness:
  "length (hd (str_split ''_'' ''notes.tif'')) \<noteq> 8
   \<and> get_date_from_filename ''notes.tif'' = None
   \<and> daily_data [''20230102_a.tif'', ''notes.tif''] = [([''20230102_a.tif''], ''02/01/2023'')]
   \<and> ''notes.tif'' \<notin> set (concat (map fst (daily_data [''20230102_a.tif'', ''notes.tif''])))
   \<and> daily_data (removeAll ''notes.tif'' [''20230102_a.tif'', ''notes.tif''])
      = daily_data [''20230102_a.tif'', ''notes.tif'']"
proof -
  have h: "length (hd (str_split ''_'' ''notes.tif'')) \<noteq> 8"
    by (simp add: str_split_def)
  have d: "daily_data [''20230102_a.tif'', ''notes.tif''] = [([''20230102_a.tif''], ''02/01/2023'')]"
    by (simp add: daily_data_def days_of_def List.map_filter_def get_date_from_filename_def
        str_split_def)
  from undated_file_in_no_day_batch [OF h, of "[''20230102_a.tif'', ''notes.tif'']"] h d
  show ?thesis by simp
qed

subsection \<open>The confidence threshold\<close>





subsection \<open>Names of label files\<close>

text \<open>
  The Tiler names the tile of row \<open>i\<close> and column \<open>j\<close>
  \<^verbatim>\<open><base>_<i>_<j>.png\<close>, where the base is the image's file name up to its first dot,
  and the detector writes its labels to the file of the same name ending in
  \<^verbatim>\<open>.txt\<close>. From such a name \<^verbatim>\<open>classification_file_info\<close> reads the row and
  the column back.
\<close>

lemma hd_split_acc_no_dot:
  "CHR ''.'' \<notin> set s \<Longrightarrow> hd (split_acc ''.txt'' acc (s @ ''.txt'')) = rev acc @ s"
  by (induction s arbitrary: acc) auto

lemma split_acc_no_sep:
  "c \<notin> set s \<Longrightarrow> split_acc [c] acc s = [rev acc @ s]"
  by (induction s arbitrary: acc) auto

lemma split_acc_append:
  "split_acc [c] acc (a @ c # b) = split_acc [c] acc a @ split_acc [c] [] b"
  by (induction a arbitrary: acc) auto

lemma strip_no_space:
  assumes "\<forall>c \<in> set s. \<not> is_space c"
  shows "strip s = s"
proof -
  from assms have "dropWhile is_space s = s" by (cases s) auto
  moreover from assms have "dropWhile is_space (rev s) = rev s" by (cases "rev s") auto
  ultimately show ?thesis by (simp add: strip_def rstrip_def)
qed

lemma digit_char:
  assumes "d < 10"
  shows "is_digit (''0123456789'' ! d)" and "digit_of (''0123456789'' ! d) = d"
    and "''0123456789'' ! d \<noteq> CHR ''_''" and "''0123456789'' ! d \<noteq> CHR ''.''"
    and "''0123456789'' ! d \<noteq> CHR ''-''" and "''0123456789'' ! d \<noteq> CHR ''+''"
    and "\<not> is_space (''0123456789'' ! d)"
proof -
  from assms have "d \<in> {0, 1, 2, 3, 4, 5, 6, 7, 8, 9}" by auto
  then show "is_digit (''0123456789'' ! d)" and "digit_of (''0123456789'' ! d) = d"
    and "''0123456789'' ! d \<noteq> CHR ''_''" and "''0123456789'' ! d \<noteq> CHR ''.''"
    and "''0123456789'' ! d \<noteq> CHR ''-''" and "''0123456789'' ! d \<noteq> CHR ''+''"
    and "\<not> is_space (''0123456789'' ! d)"
    by (auto simp: is_digit_def digit_of_def is_space_def)
qed

lemma decimal_props:
  "decimal n \<noteq> [] \<and> list_all is_digit (decimal n) \<and> nat_of_digits (decimal n) = n
   \<and> CHR ''_'' \<notin> set (decimal n) \<and> CHR ''.'' \<notin> set (decimal n)
   \<and> hd (decimal n) \<noteq> CHR ''-'' \<and> hd (decimal n) \<noteq> CHR ''+''
   \<and> (\<forall>c \<in> set (decimal n). \<not> is_space c)"
proof (induction n rule: decimal.induct)
  case (1 n)
  show ?case
  proof (cases "n < 10")
    case True
    then show ?thesis
      using digit_char [OF True]
      by (simp add: decimal.simps [of n] nat_of_digits_def)
  next
    case False
    have m: "n mod 10 < 10" by simp
    from False 1 have ih: "decimal (n div 10) \<noteq> []" "list_all is_digit (decimal (n div 10))"
      "nat_of_digits (decimal (n div 10)) = n div 10"
      "CHR ''_'' \<notin> set (decimal (n div 10))" "CHR ''.'' \<notin> set (decimal (n div 10))"
      "hd (decimal (n div 10)) \<noteq> CHR ''-''" "hd (decimal (n div 10)) \<noteq> CHR ''+''"
      "\<forall>c \<in> set (decimal (n div 10)). \<not> is_space c"
      by simp_all
    show ?thesis
      using False ih digit_char [OF m]
      by (simp add: decimal.simps [of n] nat_of_digits_def)
  qed
qed

lemma py_int_decimal: "py_int (decimal n) = Inr (int n)"
proof -
  note d = decimal_props [of n]
  from d have s: "strip (decimal n) = decimal n" by (simp add: strip_no_space)
  from d have "strip_sign (decimal n) = (False, decimal n)"
    by (cases "decimal n") (auto simp: strip_sign_def)
  with d s show ?thesis by (simp add: py_int_def signed_digits_def)
qed

lemma label_name_segments:
  assumes "CHR ''.'' \<notin> set base"
    and "basename file = base @ ''_'' @ decimal row @ ''_'' @ decimal col @ ''.txt''"
  shows "\<exists>pre. str_split ''_'' (hd (str_split ''.txt'' (basename file)))
               = pre @ [decimal row, decimal col]"
proof -
  note r = decimal_props [of row] and c = decimal_props [of col]
  let ?stem = "base @ ''_'' @ decimal row @ ''_'' @ decimal col"
  have "CHR ''.'' \<notin> set ?stem" using assms(1) r c by simp
  then have "hd (split_acc ''.txt'' [] (?stem @ ''.txt'')) = rev [] @ ?stem"
    by (rule hd_split_acc_no_dot)
  then have stem: "hd (str_split ''.txt'' (basename file)) = ?stem"
    by (simp add: str_split_def assms(2))
  have "split_acc ''_'' [] ((base @ ''_'' @ decimal row) @ CHR ''_'' # decimal col)
        = split_acc ''_'' [] (base @ CHR ''_'' # decimal row) @ split_acc ''_'' [] (decimal col)"
    using split_acc_append [of "CHR ''_''" "[]" "base @ ''_'' @ decimal row" "decimal col"]
    by simp
  also have "split_acc ''_'' [] (base @ CHR ''_'' # decimal row)
        = split_acc ''_'' [] base @ split_acc ''_'' [] (decimal row)"
    by (rule split_acc_append)
  also have "split_acc ''_'' [] (decimal row) = [decimal row]"
    using split_acc_no_sep [of "CHR ''_''" "decimal row" "[]"] r by simp
  also have "split_acc ''_'' [] (decimal col) = [decimal col]"
    using split_acc_no_sep [of "CHR ''_''" "decimal col" "[]"] c by simp
  finally have "str_split ''_'' ?stem = split_acc ''_'' [] base @ [decimal row, decimal col]"
    by (simp add: str_split_def)
  with stem show ?thesis by auto
qed

lemma file_info_of_label_name:
  assumes "CHR ''.'' \<notin> set base"
    and "basename file = base @ ''_'' @ decimal row @ ''_'' @ decimal col @ ''.txt''"
  shows "classification_file_info cfg fs file =
           (case fs file of
              None \<Rightarrow> Inl FileNotFoundError
            | Some f \<Rightarrow> Inr (int col * STRIDE cfg, int row * STRIDE cfg, map rstrip f))"
proof -
  from label_name_segments [OF assms] obtain pre
    where segs: "str_split ''_'' (hd (str_split ''.txt'' (basename file)))
                   = pre @ [decimal row, decimal col]" ..
  have n2: "(pre @ [decimal row, decimal col]) ! (length (pre @ [decimal row, decimal col]) - 2) = decimal row"
    by (simp add: nth_append)
  have n1: "(pre @ [decimal row, decimal col]) ! (length (pre @ [decimal row, decimal col]) - 1) = decimal col"
    by (simp add: nth_append)
  show ?thesis
    unfolding classification_file_info_def segs Let_def n2 n1
    by (simp add: py_int_decimal split: option.splits)
qed

subsection \<open>Parsing a label file\<close>

text \<open>The definitions that evaluating the parser on a given file unfolds.\<close>

lemmas parser_defs =
  parse_classifications_def classification_file_info_def basename_def str_split_def
  py_int_def signed_digits_def strip_def rstrip_def is_space_def strip_sign_def is_digit_def
  nat_of_digits_def digit_of_def np_array_def ncols_def astype_float_def py_float_def
  unsigned_decimal_def exponent_of_def

lemma sequence_map_Inr: "sequence (map Inr vs) = Inr vs"
  by (induction vs) auto

lemma sequence_Inr_D: "sequence rs = Inr vs \<Longrightarrow> rs = map Inr vs"
  by (induction rs arbitrary: vs) (auto split: sum.splits)

lemma sequence_eq_Inr: "sequence rs = Inr vs \<longleftrightarrow> rs = map Inr vs"
  using sequence_map_Inr sequence_Inr_D by blast

lemma np_array_cases:
  "np_array rows = Inr rows' \<Longrightarrow> rows' = rows \<and> (\<forall>r \<in> set rows. length r = ncols rows)"
  by (auto simp: np_array_def ncols_def list_all_iff split: if_splits)

lemma np_array_ragged:
  "\<exists>r \<in> set rows. length r \<noteq> length (hd rows) \<Longrightarrow> np_array rows = Inl ValueError"
  by (auto simp: np_array_def list_all_iff)

lemma py_float_one: "py_float ''1.0'' = Inr 1"
  by (simp add: py_float_def strip_def rstrip_def is_space_def strip_sign_def
      unsigned_decimal_def exponent_of_def is_digit_def nat_of_digits_def digit_of_def
      signed_digits_def)

lemma six_floats:
  assumes "sequence (map py_float [a0, a1, a2, a3, a4, a5]) = Inr fl"
  shows "py_float a0 = Inr (fl ! 0) \<and> py_float a1 = Inr (fl ! 1) \<and> py_float a2 = Inr (fl ! 2)
       \<and> py_float a3 = Inr (fl ! 3) \<and> py_float a4 = Inr (fl ! 4) \<and> py_float a5 = Inr (fl ! 5)"
proof -
  from assms have "map py_float [a0, a1, a2, a3, a4, a5] = map Inr fl"
    by (rule sequence_Inr_D)
  then obtain v0 v1 v2 v3 v4 v5 where "fl = [v0, v1, v2, v3, v4, v5]"
    and "py_float a0 = Inr v0" "py_float a1 = Inr v1" "py_float a2 = Inr v2"
    and "py_float a3 = Inr v3" "py_float a4 = Inr v4" "py_float a5 = Inr v5"
    by (auto simp: Cons_eq_map_conv)
  then show ?thesis by simp
qed

lemma parse_classifications_ragged:
  assumes info: "classification_file_info cfg fs file = Inr (across, down, lines)"
    and ragged: "\<exists>l \<in> set lines. length (str_split '' '' l) \<noteq> length (str_split '' '' (hd lines))"
  shows "parse_classifications cfg fs file = Inl ValueError"
proof -
  from ragged have ne: "lines \<noteq> []" by auto
  then have "hd (map (str_split '' '') lines) = str_split '' '' (hd lines)"
    by (simp add: hd_map)
  with ragged have "\<exists>r \<in> set (map (str_split '' '') lines). length r \<noteq> length (hd (map (str_split '' '') lines))"
    by auto
  then have "np_array (map (str_split '' '') lines) = Inl ValueError"
    by (rule np_array_ragged)
  with info ne show ?thesis by (simp add: parse_classifications_def)
qed

lemma parse_classifications_short:
  assumes info: "classification_file_info cfg fs file = Inr (across, down, lines)"
    and ne: "lines \<noteq> []"
    and uniform: "\<forall>l \<in> set lines. length (str_split '' '' l) = length (str_split '' '' (hd lines))"
    and short: "length (str_split '' '' (hd lines)) < 5"
  shows "parse_classifications cfg fs file = Inl IndexError"
proof -
  let ?rows = "map (str_split '' '') lines"
  from ne have hd: "hd ?rows = str_split '' '' (hd lines)" by (simp add: hd_map)
  from uniform hd have "np_array ?rows = Inr ?rows"
    by (simp add: np_array_def list_all_iff)
  moreover from short hd have "ncols ?rows < 5" by (simp add: ncols_def)
  ultimately show ?thesis using info ne
    by (simp add: parse_classifications_def Let_def)
qed

lemma parse_classifications_rows:
  assumes info: "classification_file_info cfg fs file = Inr (across, down, lines)"
    and res: "parse_classifications cfg fs file = Inr dets"
  shows "length dets = length lines"
    and "\<And>i. i < length lines \<Longrightarrow>
           5 \<le> length (str_split '' '' (lines ! i))
         \<and> py_float (str_split '' '' (lines ! i) ! 0) = Inr (cls (dets ! i))
         \<and> (\<exists>cx. py_float (str_split '' '' (lines ! i) ! 1) = Inr cx
                \<and> x_mid (dets ! i) = cx * real_of_int (TILE_SIZE cfg) + real_of_int across)
         \<and> (\<exists>cy. py_float (str_split '' '' (lines ! i) ! 2) = Inr cy
                \<and> y_mid (dets ! i) = cy * real_of_int (TILE_SIZE cfg) + real_of_int down)
         \<and> (\<exists>wd. py_float (str_split '' '' (lines ! i) ! 3) = Inr wd
                \<and> x_wid (dets ! i) = wd * real_of_int (TILE_SIZE cfg))
         \<and> (\<exists>ht. py_float (str_split '' '' (lines ! i) ! 4) = Inr ht
                \<and> y_wid (dets ! i) = ht * real_of_int (TILE_SIZE cfg))
         \<and> (if length (str_split '' '' (lines ! i)) = 5 then conf (dets ! i) = 1
             else py_float (str_split '' '' (lines ! i) ! 5) = Inr (conf (dets ! i)))"
proof -
  let ?rows = "map (str_split '' '') lines"
  let ?pick = "\<lambda>r :: string list. [r ! 1, r ! 2, r ! 5, r ! 0, r ! 3, r ! 4]"
  let ?mk = "\<lambda>r :: real list.
     \<lparr>x_mid = r ! 0 * real_of_int (TILE_SIZE cfg) + real_of_int across,
      y_mid = r ! 1 * real_of_int (TILE_SIZE cfg) + real_of_int down,
      conf = r ! 2, cls = r ! 3,
      x_wid = r ! 4 * real_of_int (TILE_SIZE cfg),
      y_wid = r ! 5 * real_of_int (TILE_SIZE cfg)\<rparr>"
  define cl where "cl = (if ncols ?rows = 5 then map (\<lambda>r. r @ [''1.0'']) ?rows else ?rows)"
  have both: "length dets = length lines \<and> (\<forall>i < length lines.
           5 \<le> length (str_split '' '' (lines ! i))
         \<and> py_float (str_split '' '' (lines ! i) ! 0) = Inr (cls (dets ! i))
         \<and> (\<exists>cx. py_float (str_split '' '' (lines ! i) ! 1) = Inr cx
                \<and> x_mid (dets ! i) = cx * real_of_int (TILE_SIZE cfg) + real_of_int across)
         \<and> (\<exists>cy. py_float (str_split '' '' (lines ! i) ! 2) = Inr cy
                \<and> y_mid (dets ! i) = cy * real_of_int (TILE_SIZE cfg) + real_of_int down)
         \<and> (\<exists>wd. py_float (str_split '' '' (lines ! i) ! 3) = Inr wd
                \<and> x_wid (dets ! i) = wd * real_of_int (TILE_SIZE cfg))
         \<and> (\<exists>ht. py_float (str_split '' '' (lines ! i) ! 4) = Inr ht
                \<and> y_wid (dets ! i) = ht * real_of_int (TILE_SIZE cfg))
         \<and> (if length (str_split '' '' (lines ! i)) = 5 then conf (dets ! i) = 1
             else py_float (str_split '' '' (lines ! i) ! 5) = Inr (conf (dets ! i))))"
  proof (cases "lines = []")
    case True
    with info res show ?thesis by (simp add: parse_classifications_def)
  next
    case False
    from info res False obtain split_lines where np: "np_array ?rows = Inr split_lines"
      by (cases "np_array ?rows") (simp_all add: parse_classifications_def)
    from np_array_cases [OF np] have sl: "split_lines = ?rows"
      and uni: "\<forall>r \<in> set ?rows. length r = ncols ?rows" by auto
    from np sl have np': "np_array ?rows = Inr ?rows" by simp
    have "parse_classifications cfg fs file =
            (if ncols cl < 6 then Inl IndexError
             else (case astype_float (map ?pick cl) of
                     Inl e \<Rightarrow> Inl e
                   | Inr floats \<Rightarrow> Inr (map ?mk floats)))"
      by (simp only: parse_classifications_def info np' Let_def cl_def sum.case prod.case
          length_0_conv False if_False)
    with res
    have res': "(if ncols cl < 6 then Inl IndexError
                 else (case astype_float (map ?pick cl) of
                         Inl e \<Rightarrow> Inl e
                       | Inr floats \<Rightarrow> Inr (map ?mk floats))) = Inr dets"
      by simp
    then have nc: "\<not> ncols cl < 6" by (auto split: if_splits)
    with res' obtain floats where af: "astype_float (map ?pick cl) = Inr floats"
      and dets: "dets = map ?mk floats"
      by (cases "astype_float (map ?pick cl)") auto
    have lcl: "length cl = length lines" by (simp add: cl_def)
    from af have m: "map (\<lambda>r. sequence (map py_float r)) (map ?pick cl) = map Inr floats"
      unfolding astype_float_def by (rule sequence_Inr_D)
    from arg_cong [OF m, of length] have lf: "length floats = length lines"
      using lcl by simp
    have "\<forall>i < length lines.  5 \<le> length (str_split '' '' (lines ! i))
         \<and> py_float (str_split '' '' (lines ! i) ! 0) = Inr (cls (dets ! i))
         \<and> (\<exists>cx. py_float (str_split '' '' (lines ! i) ! 1) = Inr cx
                \<and> x_mid (dets ! i) = cx * real_of_int (TILE_SIZE cfg) + real_of_int across)
         \<and> (\<exists>cy. py_float (str_split '' '' (lines ! i) ! 2) = Inr cy
                \<and> y_mid (dets ! i) = cy * real_of_int (TILE_SIZE cfg) + real_of_int down)
         \<and> (\<exists>wd. py_float (str_split '' '' (lines ! i) ! 3) = Inr wd
                \<and> x_wid (dets ! i) = wd * real_of_int (TILE_SIZE cfg))
         \<and> (\<exists>ht. py_float (str_split '' '' (lines ! i) ! 4) = Inr ht
                \<and> y_wid (dets ! i) = ht * real_of_int (TILE_SIZE cfg))
         \<and> (if length (str_split '' '' (lines ! i)) = 5 then conf (dets ! i) = 1
             else py_float (str_split '' '' (lines ! i) ! 5) = Inr (conf (dets ! i)))"
    proof (intro allI impI)
      fix i assume i: "i < length lines"
      let ?f = "str_split '' '' (lines ! i)"
      from i have li: "length ?f = ncols ?rows" using uni by simp
      from m i lcl have "map (\<lambda>r. sequence (map py_float r)) (map ?pick cl) ! i = map Inr floats ! i"
        by simp
      with i lcl lf have "sequence (map py_float (?pick (cl ! i))) = Inr (floats ! i)"
        by simp
      note six = six_floats [OF this]
      have di: "dets ! i = ?mk (floats ! i)" using dets i lf by simp
      show "5 \<le> length ?f
         \<and> py_float (?f ! 0) = Inr (cls (dets ! i))
         \<and> (\<exists>cx. py_float (?f ! 1) = Inr cx
                \<and> x_mid (dets ! i) = cx * real_of_int (TILE_SIZE cfg) + real_of_int across)
         \<and> (\<exists>cy. py_float (?f ! 2) = Inr cy
                \<and> y_mid (dets ! i) = cy * real_of_int (TILE_SIZE cfg) + real_of_int down)
         \<and> (\<exists>wd. py_float (?f ! 3) = Inr wd
                \<and> x_wid (dets ! i) = wd * real_of_int (TILE_SIZE cfg))
         \<and> (\<exists>ht. py_float (?f ! 4) = Inr ht
                \<and> y_wid (dets ! i) = ht * real_of_int (TILE_SIZE cfg))
         \<and> (if length ?f = 5 then conf (dets ! i) = 1
             else py_float (?f ! 5) = Inr (conf (dets ! i)))"
      proof (cases "ncols ?rows = 5")
        case True
        with i have ci: "cl ! i = ?f @ [''1.0'']" by (simp add: cl_def)
        from True li have l5: "length ?f = 5" by simp
        from six show ?thesis
          unfolding ci di using l5 by (simp add: nth_append py_float_one)
      next
        case False
        with i have ci: "cl ! i = ?f" by (simp add: cl_def)
        from False have "cl = ?rows" by (simp add: cl_def)
        with nc have "6 \<le> ncols ?rows" by simp
        with li have l6: "6 \<le> length ?f" by simp
        from six show ?thesis
          unfolding ci di using l6 by simp
      qed
    qed
    moreover have "length dets = length lines" using dets lf by simp
    ultimately show ?thesis by blast
  qed
  from both show "length dets = length lines" by blast
  fix i assume "i < length lines"
  with both show "5 \<le> length (str_split '' '' (lines ! i))
         \<and> py_float (str_split '' '' (lines ! i) ! 0) = Inr (cls (dets ! i))
         \<and> (\<exists>cx. py_float (str_split '' '' (lines ! i) ! 1) = Inr cx
                \<and> x_mid (dets ! i) = cx * real_of_int (TILE_SIZE cfg) + real_of_int across)
         \<and> (\<exists>cy. py_float (str_split '' '' (lines ! i) ! 2) = Inr cy
                \<and> y_mid (dets ! i) = cy * real_of_int (TILE_SIZE cfg) + real_of_int down)
         \<and> (\<exists>wd. py_float (str_split '' '' (lines ! i) ! 3) = Inr wd
                \<and> x_wid (dets ! i) = wd * real_of_int (TILE_SIZE cfg))
         \<and> (\<exists>ht. py_float (str_split '' '' (lines ! i) ! 4) = Inr ht
                \<and> y_wid (dets ! i) = ht * real_of_int (TILE_SIZE cfg))
         \<and> (if length (str_split '' '' (lines ! i)) = 5 then conf (dets ! i) = 1
             else py_float (str_split '' '' (lines ! i) ! 5) = Inr (conf (dets ! i)))"
    by blast
qed

text \<open>
  The parser returns for every file of five-field lines, and for every file of six-field
  lines, whose fields are numbers.
\<close>

lemma sequence_all_Inr:
  "\<forall>r \<in> set rs. \<exists>v. r = Inr v \<Longrightarrow> \<exists>vs. sequence rs = Inr vs"
proof (induction rs)
  case Nil
  then show ?case by simp
next
  case (Cons r rs)
  then obtain v vs where "r = Inr v" and "sequence rs = Inr vs" by auto
  then show ?case by simp
qed

lemma parse_classifications_returns:
  assumes "CHR ''.'' \<notin> set base"
    and "basename file = base @ ''_'' @ decimal row @ ''_'' @ decimal col @ ''.txt''"
    and "fs file = Some f"
    and nf: "nf = 5 \<or> nf = 6"
    and wf: "\<forall>l \<in> set f. length (str_split '' '' (rstrip l)) = nf
               \<and> (\<forall>k < nf. \<exists>v. py_float (str_split '' '' (rstrip l) ! k) = Inr v)"
  shows "\<exists>dets. parse_classifications cfg fs file = Inr dets"
proof (cases "f = []")
  case True
  with file_info_of_label_name [OF assms(1,2), of cfg fs] assms(3)
  show ?thesis by (simp add: parse_classifications_def)
next
  case False
  let ?lines = "map rstrip f"
  let ?rows = "map (str_split '' '') ?lines"
  let ?pick = "\<lambda>r :: string list. [r ! 1, r ! 2, r ! 5, r ! 0, r ! 3, r ! 4]"
  let ?mk = "\<lambda>r :: real list.
     \<lparr>x_mid = r ! 0 * real_of_int (TILE_SIZE cfg) + real_of_int (int col * STRIDE cfg),
      y_mid = r ! 1 * real_of_int (TILE_SIZE cfg) + real_of_int (int row * STRIDE cfg),
      conf = r ! 2, cls = r ! 3,
      x_wid = r ! 4 * real_of_int (TILE_SIZE cfg),
      y_wid = r ! 5 * real_of_int (TILE_SIZE cfg)\<rparr>"
  define cl where "cl = (if ncols ?rows = 5 then map (\<lambda>r. r @ [''1.0'']) ?rows else ?rows)"
  from file_info_of_label_name [OF assms(1,2), of cfg fs] assms(3)
  have info: "classification_file_info cfg fs file
                = Inr (int col * STRIDE cfg, int row * STRIDE cfg, ?lines)"
    by simp
  from False have ne: "?lines \<noteq> []" by simp
  from wf have len: "\<forall>r \<in> set ?rows. length r = nf" by auto
  from False have "hd ?rows \<in> set ?rows" by (intro hd_in_set) simp
  with len have nc: "ncols ?rows = nf" unfolding ncols_def by blast
  from len nc have np': "np_array ?rows = Inr ?rows"
    by (simp add: np_array_def ncols_def list_all_iff)
  have unf: "parse_classifications cfg fs file =
            (if ncols cl < 6 then Inl IndexError
             else (case astype_float (map ?pick cl) of
                     Inl e \<Rightarrow> Inl e
                   | Inr floats \<Rightarrow> Inr (map ?mk floats)))"
    by (simp only: parse_classifications_def info np' Let_def cl_def sum.case prod.case
        length_0_conv ne if_False)
  have "hd cl \<in> set cl" using False by (intro hd_in_set) (simp add: cl_def)
  moreover have "\<forall>r \<in> set cl. length r = 6"
    using nf len nc by (auto simp: cl_def)
  ultimately have six: "\<not> ncols cl < 6" by (simp add: ncols_def)
  have "\<forall>r \<in> set cl. \<forall>k < 6. \<exists>v. py_float (r ! k) = Inr v"
  proof (intro ballI allI impI)
    fix r k assume r: "r \<in> set cl" and k: "k < (6::nat)"
    show "\<exists>v. py_float (r ! k) = Inr v"
    proof (cases "nf = 5")
      case True
      with r nc obtain l where l: "l \<in> set f" and rl: "r = str_split '' '' (rstrip l) @ [''1.0'']"
        by (auto simp: cl_def)
      from wf l True have ll: "length (str_split '' '' (rstrip l)) = 5"
        and fl: "\<forall>k < 5. \<exists>v. py_float (str_split '' '' (rstrip l) ! k) = Inr v" by auto
      show ?thesis
      proof (cases "k < 5")
        case True
        with fl ll show ?thesis by (simp add: rl nth_append)
      next
        case False
        with k have "k = 5" by simp
        with ll show ?thesis by (simp add: rl nth_append py_float_one)
      qed
    next
      case False
      with nf have n6: "nf = 6" by simp
      with r nc obtain l where l: "l \<in> set f" and rl: "r = str_split '' '' (rstrip l)"
        by (auto simp: cl_def)
      from wf l n6 k show ?thesis by (simp add: rl)
    qed
  qed
  then have "\<forall>r \<in> set cl. \<forall>a \<in> set (map py_float (?pick r)). \<exists>v. a = Inr v"
    by simp
  then have "\<forall>r \<in> set cl. \<exists>vs. sequence (map py_float (?pick r)) = Inr vs"
    by (intro ballI sequence_all_Inr) blast
  then have "\<forall>a \<in> set (map (\<lambda>r. sequence (map py_float r)) (map ?pick cl)). \<exists>vs. a = Inr vs"
    by auto
  then obtain floats where "astype_float (map ?pick cl) = Inr floats"
    unfolding astype_float_def using sequence_all_Inr by blast
  with unf six show ?thesis by simp
qed

text \<open>
  Claim C8. For a label file named \<^verbatim>\<open><base>_<row>_<col>.txt\<close> that the parser
  reads, there is one detection per line, in the order of the lines, and the detection
  of a line has \<open>x = cx * tile_size + col * stride\<close> and
  \<open>y = cy * tile_size + row * stride\<close>, where \<open>cx\<close> and \<open>cy\<close> are the numbers in
  the second and third field of the line; its confidence is \<open>1\<close> when the line has
  five fields and the number in the sixth field otherwise; its class is the number in the
  first field. The scenario of the specification (file \<^verbatim>\<open>img_0_1.txt\<close>, stride 104,
  tile size 416, line \<^verbatim>\<open>0 0.5 0.5 0.2 0.2 0.8\<close>: pixel \<open>(312, 208)\<close>, confidence
  \<open>0.8\<close>, class \<open>0\<close>) is the witness below.
\<close>

theorem parse_classifications_full_image_coordinates:
  assumes "CHR ''.'' \<notin> set base"
    and "basename file = base @ ''_'' @ decimal row @ ''_'' @ decimal col @ ''.txt''"
    and "fs file = Some f"
    and "parse_classifications cfg fs file = Inr dets"
  shows "length dets = length f
     \<and> (\<forall>i < length f.
           (\<exists>cx. py_float (str_split '' '' (rstrip (f ! i)) ! 1) = Inr cx
              \<and> x_mid (dets ! i) = cx * real_of_int (TILE_SIZE cfg) + real_of_int (int col * STRIDE cfg))
         \<and> (\<exists>cy. py_float (str_split '' '' (rstrip (f ! i)) ! 2) = Inr cy
              \<and> y_mid (dets ! i) = cy * real_of_int (TILE_SIZE cfg) + real_of_int (int row * STRIDE cfg))
         \<and> (if length (str_split '' '' (rstrip (f ! i))) = 5 then conf (dets ! i) = 1
             else py_float (str_split '' '' (rstrip (f ! i)) ! 5) = Inr (conf (dets ! i)))
         \<and> py_float (str_split '' '' (rstrip (f ! i)) ! 0) = Inr (cls (dets ! i)))"
proof -
  from file_info_of_label_name [OF assms(1,2), of cfg fs] assms(3)
  have info: "classification_file_info cfg fs file
                = Inr (int col * STRIDE cfg, int row * STRIDE cfg, map rstrip f)"
    by simp
  note rows = parse_classifications_rows [OF info assms(4)]
  from rows(1) have len: "length dets = length f" by simp
  have "\<forall>i < length f.
           (\<exists>cx. py_float (str_split '' '' (rstrip (f ! i)) ! 1) = Inr cx
              \<and> x_mid (dets ! i) = cx * real_of_int (TILE_SIZE cfg) + real_of_int (int col * STRIDE cfg))
         \<and> (\<exists>cy. py_float (str_split '' '' (rstrip (f ! i)) ! 2) = Inr cy
              \<and> y_mid (dets ! i) = cy * real_of_int (TILE_SIZE cfg) + real_of_int (int row * STRIDE cfg))
         \<and> (if length (str_split '' '' (rstrip (f ! i))) = 5 then conf (dets ! i) = 1
             else py_float (str_split '' '' (rstrip (f ! i)) ! 5) = Inr (conf (dets ! i)))
         \<and> py_float (str_split '' '' (rstrip (f ! i)) ! 0) = Inr (cls (dets ! i))"
  proof (intro allI impI)
    fix i assume i: "i < length f"
    then have "i < length (map rstrip f)" by simp
    from rows(2) [OF this, unfolded nth_map [OF i]]
    show "(\<exists>cx. py_float (str_split '' '' (rstrip (f ! i)) ! 1) = Inr cx
              \<and> x_mid (dets ! i) = cx * real_of_int (TILE_SIZE cfg) + real_of_int (int col * STRIDE cfg))
         \<and> (\<exists>cy. py_float (str_split '' '' (rstrip (f ! i)) ! 2) = Inr cy
              \<and> y_mid (dets ! i) = cy * real_of_int (TILE_SIZE cfg) + real_of_int (int row * STRIDE cfg))
         \<and> (if length (str_split '' '' (rstrip (f ! i))) = 5 then conf (dets ! i) = 1
             else py_float (str_split '' '' (rstrip (f ! i)) ! 5) = Inr (conf (dets ! i)))
         \<and> py_float (str_split '' '' (rstrip (f ! i)) ! 0) = Inr (cls (dets ! i))"
      by simp
  qed
  with len show ?thesis by blast
qed

theorem parse_classifications_full_image_coordinates_witness:
  "CHR ''.'' \<notin> set ''img''
   \<and> basename ''img_0_1.txt'' = ''img'' @ ''_'' @ decimal 0 @ ''_'' @ decimal 1 @ ''.txt''
   \<and> parse_classifications example_config
       (one_file ''img_0_1.txt'' [''0 0.5 0.5 0.2 0.2 0.8'' @ [CHR 0x0A]]) ''img_0_1.txt''
     = Inr [\<lparr>x_mid = 312, y_mid = 208, conf = 4 / 5, cls = 0, x_wid = 416 / 5, y_wid = 416 / 5\<rparr>]
   \<and> parse_classifications example_config
       (one_file ''img_0_1.txt'' [''1 0.25 0.5 0.2 0.2'']) ''img_0_1.txt''
     = Inr [\<lparr>x_mid = 208, y_mid = 208, conf = 1, cls = 1, x_wid = 416 / 5, y_wid = 416 / 5\<rparr>]"
proof -
  have h1: "CHR ''.'' \<notin> set ''img''" by simp
  have h2: "basename ''img_0_1.txt'' = ''img'' @ ''_'' @ decimal 0 @ ''_'' @ decimal 1 @ ''.txt''"
    by (simp add: basename_def decimal.simps)
  have h3: "one_file ''img_0_1.txt'' [''0 0.5 0.5 0.2 0.2 0.8'' @ [CHR 0x0A]] ''img_0_1.txt''
              = Some [''0 0.5 0.5 0.2 0.2 0.8'' @ [CHR 0x0A]]"
    by (simp add: one_file_def)
  have h4: "parse_classifications example_config
       (one_file ''img_0_1.txt'' [''0 0.5 0.5 0.2 0.2 0.8'' @ [CHR 0x0A]]) ''img_0_1.txt''
     = Inr [\<lparr>x_mid = 312, y_mid = 208, conf = 4 / 5, cls = 0, x_wid = 416 / 5, y_wid = 416 / 5\<rparr>]"
    by (simp add: parser_defs one_file_def example_config_def)
  have h5: "parse_classifications example_config
       (one_file ''img_0_1.txt'' [''1 0.25 0.5 0.2 0.2'']) ''img_0_1.txt''
     = Inr [\<lparr>x_mid = 208, y_mid = 208, conf = 1, cls = 1, x_wid = 416 / 5, y_wid = 416 / 5\<rparr>]"
    by (simp add: parser_defs one_file_def example_config_def)
  from parse_classifications_full_image_coordinates [OF h1 h2 h3 h4] h1 h2 h4 h5
  show ?thesis by simp
qed

text \<open>
  Claim C4, as amended. The claim: an empty or a missing label file gives an empty
  sequence and no error. The code returns the empty sequence for a file named
  \<^verbatim>\<open><base>_<row>_<col>.txt\<close> that exists and has no line; for a file that does
  not exist \<^verbatim>\<open>open\<close> raises \<^verbatim>\<open>FileNotFoundError\<close>, which nothing catches.
\<close>

theorem parse_classifications_empty_file:
  assumes "CHR ''.'' \<notin> set base"
    and "basename file = base @ ''_'' @ decimal row @ ''_'' @ decimal col @ ''.txt''"
  shows "(fs file = Some [] \<longrightarrow> parse_classifications cfg fs file = Inr [])
       \<and> (fs file = None \<longrightarrow> parse_classifications cfg fs file = Inl FileNotFoundError)"
  using file_info_of_label_name [OF assms, of cfg fs]
  by (simp add: parse_classifications_def)

text \<open>The claim as stated fails on a missing file: the parser raises.\<close>

theorem parse_classifications_missing_file_raises:
  "no_file ''img_0_1.txt'' = None
   \<and> parse_classifications example_config no_file ''img_0_1.txt'' = Inl FileNotFoundError
   \<and> parse_classifications example_config no_file ''img_0_1.txt'' \<noteq> Inr []"
  by (simp add: parser_defs no_file_def)

theorem parse_classifications_empty_file_witness:
  "CHR ''.'' \<notin> set ''img''
   \<and> basename ''labels/img_2_3.txt'' = ''img'' @ ''_'' @ decimal 2 @ ''_'' @ decimal 3 @ ''.txt''
   \<and> one_file ''labels/img_2_3.txt'' [] ''labels/img_2_3.txt'' = Some []
   \<and> parse_classifications example_config (one_file ''labels/img_2_3.txt'' []) ''labels/img_2_3.txt''
       = Inr []
   \<and> no_file ''labels/img_2_3.txt'' = None
   \<and> parse_classifications example_config no_file ''labels/img_2_3.txt'' = Inl FileNotFoundError"
proof -
  have h1: "CHR ''.'' \<notin> set ''img''" by simp
  have h2: "basename ''labels/img_2_3.txt'' = ''img'' @ ''_'' @ decimal 2 @ ''_'' @ decimal 3 @ ''.txt''"
    by (simp add: basename_def decimal.simps)
  have h3: "one_file ''labels/img_2_3.txt'' [] ''labels/img_2_3.txt'' = Some []"
    by (simp add: one_file_def)
  have h4: "no_file ''labels/img_2_3.txt'' = None"
    by (simp add: no_file_def)
  from parse_classifications_empty_file
         [OF h1 h2, of "one_file ''labels/img_2_3.txt'' []" example_config]
       parse_classifications_empty_file [OF h1 h2, of no_file example_config]
       h1 h2 h3 h4
  show ?thesis by simp
qed

text \<open>
  Claim C5, as amended. The claim: a line with an unexpected number of fields is
  skipped and the other lines of the file are still parsed. The code has no per-line
  handling: the split lines go into one array. When the lines of a file do not all have
  the same number of fields, building the array raises \<^verbatim>\<open>ValueError\<close>; when they
  all have the same number and it is below five, selecting the columns raises
  \<^verbatim>\<open>IndexError\<close>; either way no detection of the file is returned. And whenever the
  parser returns, it returns one detection for every line of the file: no line is ever
  skipped (lines of seven or more fields are read from their first six).
\<close>

theorem parse_classifications_never_skips_a_line:
  assumes "CHR ''.'' \<notin> set base"
    and "basename file = base @ ''_'' @ decimal row @ ''_'' @ decimal col @ ''.txt''"
    and "fs file = Some f"
  shows "((\<exists>l \<in> set f. length (str_split '' '' (rstrip l))
                          \<noteq> length (str_split '' '' (rstrip (hd f))))
            \<longrightarrow> parse_classifications cfg fs file = Inl ValueError)
       \<and> (f \<noteq> [] \<and> (\<forall>l \<in> set f. length (str_split '' '' (rstrip l))
                                  = length (str_split '' '' (rstrip (hd f))))
              \<and> length (str_split '' '' (rstrip (hd f))) < 5
            \<longrightarrow> parse_classifications cfg fs file = Inl IndexError)
       \<and> (\<forall>dets. parse_classifications cfg fs file = Inr dets \<longrightarrow> length dets = length f)"
proof -
  from file_info_of_label_name [OF assms(1,2), of cfg fs] assms(3)
  have info: "classification_file_info cfg fs file
                = Inr (int col * STRIDE cfg, int row * STRIDE cfg, map rstrip f)"
    by simp
  have a: "parse_classifications cfg fs file = Inl ValueError"
    if "\<exists>l \<in> set f. length (str_split '' '' (rstrip l)) \<noteq> length (str_split '' '' (rstrip (hd f)))"
  proof -
    from that have "f \<noteq> []" by auto
    then have "hd (map rstrip f) = rstrip (hd f)" by (simp add: hd_map)
    with that have "\<exists>l \<in> set (map rstrip f).
        length (str_split '' '' l) \<noteq> length (str_split '' '' (hd (map rstrip f)))"
      by auto
    with info show ?thesis by (rule parse_classifications_ragged)
  qed
  have b: "parse_classifications cfg fs file = Inl IndexError"
    if "f \<noteq> []"
      and "\<forall>l \<in> set f. length (str_split '' '' (rstrip l)) = length (str_split '' '' (rstrip (hd f)))"
      and "length (str_split '' '' (rstrip (hd f))) < 5"
  proof -
    from that(1) have hd: "hd (map rstrip f) = rstrip (hd f)" by (simp add: hd_map)
    from that(1) have ne: "map rstrip f \<noteq> []" by simp
    from that(2) hd have uni: "\<forall>l \<in> set (map rstrip f).
        length (str_split '' '' l) = length (str_split '' '' (hd (map rstrip f)))"
      by auto
    from that(3) hd have short: "length (str_split '' '' (hd (map rstrip f))) < 5" by simp
    from info ne uni short show ?thesis by (rule parse_classifications_short)
  qed
  have c: "length dets = length f" if "parse_classifications cfg fs file = Inr dets" for dets
    using parse_classifications_rows(1) [OF info that] by simp
  from a b c show ?thesis by blast
qed

text \<open>
  The claim as stated fails on a file with one good line and one line of three fields:
  the parser raises, where the good line alone gives a detection.
\<close>

theorem parse_classifications_bad_line_aborts_file:
  "parse_classifications example_config
      (one_file ''img_0_1.txt'' [''0 0.5 0.5 0.2 0.2 0.8'' @ [CHR 0x0A], ''0 0.5 0.5'' @ [CHR 0x0A]])
      ''img_0_1.txt''
     = Inl ValueError
   \<and> parse_classifications example_config
      (one_file ''img_0_1.txt'' [''0 0.5 0.5 0.2 0.2 0.8'' @ [CHR 0x0A]]) ''img_0_1.txt''
     = Inr [\<lparr>x_mid = 312, y_mid = 208, conf = 4 / 5, cls = 0, x_wid = 416 / 5, y_wid = 416 / 5\<rparr>]"
  by (simp add: parser_defs one_file_def example_config_def)

theorem parse_classifications_never_skips_a_line_witness:
  "CHR ''.'' \<notin> set ''img''
   \<and> basename ''img_0_1.txt'' = ''img'' @ ''_'' @ decimal 0 @ ''_'' @ decimal 1 @ ''.txt''
   \<and> parse_classifications example_config
        (one_file ''img_0_1.txt'' [''0 0.5 0.5 0.2'' @ [CHR 0x0A], ''1 0.5 0.5 0.2 0.2 0.9'' @ [CHR 0x0A]])
        ''img_0_1.txt'' = Inl ValueError
   \<and> parse_classifications example_config
        (one_file ''img_0_1.txt'' [''0 0.5 0.5 0.2'' @ [CHR 0x0A]]) ''img_0_1.txt'' = Inl IndexError
   \<and> parse_classifications example_config
        (one_file ''img_0_1.txt'' [''1 0.5 0.5 0.25 0.25 0.5 7'' @ [CHR 0x0A]]) ''img_0_1.txt''
      = Inr [\<lparr>x_mid = 312, y_mid = 208, conf = 1 / 2, cls = 1, x_wid = 104, y_wid = 104\<rparr>]
   \<and> length [\<lparr>x_mid = 312, y_mid = 208, conf = 1 / 2, cls = 1, x_wid = 104, y_wid = 104\<rparr>]
      = length [''1 0.5 0.5 0.25 0.25 0.5 7'' @ [CHR 0x0A]]"
proof -
  let ?ragged = "[''0 0.5 0.5 0.2'' @ [CHR 0x0A], ''1 0.5 0.5 0.2 0.2 0.9'' @ [CHR 0x0A]]"
  let ?short = "[''0 0.5 0.5 0.2'' @ [CHR 0x0A]]"
  let ?long = "[''1 0.5 0.5 0.25 0.25 0.5 7'' @ [CHR 0x0A]]"
  have h1: "CHR ''.'' \<notin> set ''img''" by simp
  have h2: "basename ''img_0_1.txt'' = ''img'' @ ''_'' @ decimal 0 @ ''_'' @ decimal 1 @ ''.txt''"
    by (simp add: basename_def decimal.simps)
  have f: "one_file ''img_0_1.txt'' lines ''img_0_1.txt'' = Some lines" for lines
    by (simp add: one_file_def)
  have r: "\<exists>l \<in> set ?ragged. length (str_split '' '' (rstrip l))
             \<noteq> length (str_split '' '' (rstrip (hd ?ragged)))"
    by (simp add: str_split_def rstrip_def is_space_def)
  have s: "?short \<noteq> []
           \<and> (\<forall>l \<in> set ?short. length (str_split '' '' (rstrip l))
                 = length (str_split '' '' (rstrip (hd ?short))))
           \<and> length (str_split '' '' (rstrip (hd ?short))) < 5"
    by (simp add: str_split_def rstrip_def is_space_def)
  have l: "parse_classifications example_config (one_file ''img_0_1.txt'' ?long) ''img_0_1.txt''
      = Inr [\<lparr>x_mid = 312, y_mid = 208, conf = 1 / 2, cls = 1, x_wid = 104, y_wid = 104\<rparr>]"
    by (simp add: parser_defs one_file_def example_config_def)
  from parse_classifications_never_skips_a_line
         [where fs = "one_file ''img_0_1.txt'' ?ragged" and cfg = example_config, OF h1 h2 f] r
  have a: "parse_classifications example_config (one_file ''img_0_1.txt'' ?ragged) ''img_0_1.txt''
             = Inl ValueError"
    by blast
  from parse_classifications_never_skips_a_line
         [where fs = "one_file ''img_0_1.txt'' ?short" and cfg = example_config, OF h1 h2 f] s
  have b: "parse_classifications example_config (one_file ''img_0_1.txt'' ?short) ''img_0_1.txt''
             = Inl IndexError"
    by blast
  from parse_classifications_never_skips_a_line
         [where fs = "one_file ''img_0_1.txt'' ?long" and cfg = example_config, OF h1 h2 f] l
  have c: "length [\<lparr>x_mid = 312, y_mid = 208, conf = 1 / 2, cls = 1, x_wid = 104, y_wid = 104\<rparr>]
             = length ?long"
    by blast
  from h1 h2 a b l c show ?thesis by blast
qed

subsection \<open>Tiling\<close>

text \<open>
  Once the divisibility checks have passed, every tile the two loops visit lies inside
  the image, so no \<^verbatim>\<open>getpixel\<close> of the border sampling is out of range.
\<close>

lemma tiles_inside_image:
  fixes stride :: nat
  assumes "stride \<noteq> 0" and "W mod stride = 0" and "H mod stride = 0" and "T mod stride = 0"
    and "i < H div stride - T div stride" and "j < 1 + W div stride - T div stride"
  shows "j * stride + T \<le> W \<and> i * stride + T \<le> H"
proof -
  from assms(2) obtain wq where w: "W = stride * wq" by (auto simp: mod_eq_0_iff_dvd)
  from assms(3) obtain hq where h: "H = stride * hq" by (auto simp: mod_eq_0_iff_dvd)
  from assms(4) obtain tq where t: "T = stride * tq" by (auto simp: mod_eq_0_iff_dvd)
  from assms(1,6) have "j + tq \<le> wq" by (simp add: w t)
  then have a: "stride * (j + tq) \<le> stride * wq" by (rule mult_le_mono2)
  from assms(1,5) have "i + tq \<le> hq" by (simp add: h t)
  then have b: "stride * (i + tq) \<le> stride * hq" by (rule mult_le_mono2)
  from a b show ?thesis
    unfolding w h t by (simp add: distrib_left mult.commute)
qed

text \<open>
  On an image with no black pixel no tile is skipped, and the tiles come row by row,
  each row from left to right, at the offsets \<open>(j * stride, i * stride)\<close>: the rows
  \<open>i\<close> below \<open>height / stride - tile_size / stride\<close>, the columns \<open>j\<close> below
  \<open>1 + width / stride - tile_size / stride\<close>.
\<close>

lemma for_loop_no_error:
  "\<forall>i \<in> set xs. snd (body i) = None \<Longrightarrow>
     for_loop body xs = (concat (map (\<lambda>i. fst (body i)) xs), None)"
  by (induction xs) (auto split: prod.splits option.splits)

lemma tile_body_plain:
  assumes "2 \<le> tile_size"
  shows "tile_body (plain_image W H) tile_size stride i j =
           ([\<lparr>tile_row = i, tile_col = j, crop_left = j * stride, crop_top = i * stride,
              crop_right = j * stride + tile_size, crop_bottom = i * stride + tile_size\<rparr>], None)"
proof -
  from assms have "0 < (tile_size - 1 + 7) div 8" by (simp add: div_greater_zero_iff)
  then have "border_samples tile_size \<noteq> []" by (simp add: border_samples_def)
  then show ?thesis
    by (simp add: tile_body_def plain_image_def Let_def)
qed

lemma segment_plain_image:
  assumes "stride \<noteq> 0" and "W mod stride = 0" and "H mod stride = 0"
    and "tile_size mod stride = 0" and "2 \<le> tile_size" and "H div stride \<noteq> 5"
  shows "segment_image_for_classification (plain_image W H) tile_size stride =
           (concat (map (\<lambda>i. map (\<lambda>j.
               \<lparr>tile_row = i, tile_col = j, crop_left = j * stride, crop_top = i * stride,
                crop_right = j * stride + tile_size, crop_bottom = i * stride + tile_size\<rparr>)
               [0..<1 + W div stride - tile_size div stride])
             [0..<H div stride - tile_size div stride]), None)"
proof -
  let ?t = "\<lambda>i j. \<lparr>tile_row = i, tile_col = j, crop_left = j * stride, crop_top = i * stride,
                crop_right = j * stride + tile_size, crop_bottom = i * stride + tile_size\<rparr>"
  let ?cols = "[0..<1 + W div stride - tile_size div stride]"
  have wh: "img_width (plain_image W H) = W" "img_height (plain_image W H) = H"
    by (simp_all add: plain_image_def)
  have row: "row_body (plain_image W H) tile_size stride i = (map (?t i) ?cols, None)" for i
  proof -
    have "for_loop (tile_body (plain_image W H) tile_size stride i) ?cols
            = (concat (map (\<lambda>j. fst (tile_body (plain_image W H) tile_size stride i j)) ?cols), None)"
      by (rule for_loop_no_error) (simp add: tile_body_plain [OF assms(5)])
    also have "concat (map (\<lambda>j. fst (tile_body (plain_image W H) tile_size stride i j)) ?cols)
                 = map (?t i) ?cols"
      by (simp add: tile_body_plain [OF assms(5)] concat_map_singleton)
    finally show ?thesis
      using assms(6) by (simp add: row_body_def wh)
  qed
  have "for_loop (row_body (plain_image W H) tile_size stride)
          [0..<H div stride - tile_size div stride]
        = (concat (map (\<lambda>i. fst (row_body (plain_image W H) tile_size stride i))
             [0..<H div stride - tile_size div stride]), None)"
    by (rule for_loop_no_error) (simp add: row)
  then show ?thesis
    using assms(1-4) by (simp add: segment_image_for_classification_def wh row)
qed

text \<open>
  Claim C3. The claim: the Tiler emits \<open>height / stride - tile_size / stride + 1\<close> rows of
  tiles, and as many columns by the same formula. The code's column loop has the
  \<open>+ 1\<close>, its row loop has not: an image of exactly one tile (416 by 416 pixels, tile
  size 416, stride 104), for which the formula gives one row of one tile, yields no tile
  at all, and a plain image of 24 by 24 pixels with tile size 16 and stride 8 yields the
  single row of tiles at offsets \<open>(0, 0)\<close> and \<open>(8, 0)\<close> where the formula gives two
  rows. Lemma \<open>segment_plain_image\<close> gives the rows and columns for every size.
\<close>

theorem segment_image_misses_last_row:
  "segment_image_for_classification (plain_image 416 416) 416 104 = ([], None)
   \<and> 416 div 104 - 416 div 104 + 1 = (1::nat)
   \<and> segment_image_for_classification (plain_image 24 24) 16 8
       = ([\<lparr>tile_row = 0, tile_col = 0,
            crop_left = 0, crop_top = 0, crop_right = 16, crop_bottom = 16\<rparr>,
           \<lparr>tile_row = 0, tile_col = 1,
            crop_left = 8, crop_top = 0, crop_right = 24, crop_bottom = 16\<rparr>], None)
   \<and> 24 div 8 - 16 div 8 + 1 = (2::nat)"
  by (simp add: segment_image_for_classification_def plain_image_def row_body_def
      tile_body_def border_samples_def upt_rec)

text \<open>The numbers of tiles saved in the two cases: none, and two.\<close>

theorem segment_image_misses_last_row_witness:
  "length (fst (segment_image_for_classification (plain_image 416 416) 416 104)) = 0
   \<and> length (fst (segment_image_for_classification (plain_image 24 24) 16 8)) = 2"
  using segment_image_misses_last_row by simp

subsection \<open>The day-level pass\<close>

text \<open>
  Whatever the later rasters of the day return, the arrays that reach the day-level
  \<^verbatim>\<open>cluster\<close> calls are those of the first file.
\<close>

lemma day_boats_first_file_only:
  "day_boats process_tif (file # files) = Inr r \<Longrightarrow> process_tif file = Inr r"
  by (auto simp: day_boats_def split: sum.splits)

text \<open>
  Claim C2. The claim: the day-level clustering runs over the detections of all rasters
  of the day. The code keeps element \<open>0\<close> of each tuple that \<^verbatim>\<open>zip\<close> returns,
  that is the boats of the first raster. For a day with the rasters
  \<^verbatim>\<open>20230102_a.tif\<close> and \<^verbatim>\<open>20230102_b.tif\<close>, each with one static boat, the
  array passed to \<^verbatim>\<open>cluster\<close> holds the boat of the first raster only, and so do
  the result of the day and what \<^verbatim>\<open>classify_directory\<close> writes for the directory
  of the two rasters, whatever the clustering and the cutoffs.
\<close>

theorem process_day_drops_later_rasters:
  "day_boats two_rasters [''20230102_a.tif'', ''20230102_b.tif''] = Inr ([boat_a], [])
   \<and> boat_b \<notin> set [boat_a]
   \<and> process_day two_rasters fcluster stat_cutoff moving_cutoff
        [''20230102_a.tif'', ''20230102_b.tif''] ''02/01/2023''
      = Inr ([boat_a], [], ''02/01/2023'')
   \<and> classify_directory two_rasters fcluster stat_cutoff moving_cutoff
        [''20230102_a.tif'', ''20230102_b.tif'']
      = ([([boat_a], [], ''02/01/2023'')], None)"
proof -
  have boats: "day_boats two_rasters [''20230102_a.tif'', ''20230102_b.tif''] = Inr ([boat_a], [])"
    by (simp add: day_boats_def two_rasters_def)
  have differ: "boat_b \<notin> set [boat_a]"
    by (simp add: boat_a_def boat_b_def)
  have one: "process_clusters_named (cluster fcluster [boat_a] cutoff) = Inr [boat_a]" for cutoff
    by (simp add: cluster_def process_clusters_named_def condense_named_def condense_def
        mean_def stats_mode_def argmax_def boat_a_def)
  have none: "process_clusters_named (cluster fcluster [] cutoff) = Inr []" for cutoff
    by (simp add: cluster_def process_clusters_named_def)
  have day: "process_day two_rasters fcluster stat_cutoff moving_cutoff
        [''20230102_a.tif'', ''20230102_b.tif''] ''02/01/2023''
      = Inr ([boat_a], [], ''02/01/2023'')"
    by (simp add: process_day_def boats one none)
  have batches: "daily_data [''20230102_a.tif'', ''20230102_b.tif'']
                   = [([''20230102_a.tif'', ''20230102_b.tif''], ''02/01/2023'')]"
    by (simp add: daily_data_def days_of_def List.map_filter_def get_date_from_filename_def
        str_split_def)
  have "classify_directory two_rasters fcluster stat_cutoff moving_cutoff
          [''20230102_a.tif'', ''20230102_b.tif'']
        = ([([boat_a], [], ''02/01/2023'')], None)"
    by (simp add: classify_directory_def batches day)
  with boats differ day show ?thesis by blast
qed

subsection \<open>Cluster ids\<close>

text \<open>
  Below two rows \<^verbatim>\<open>cluster\<close> does not call SciPy; from two rows on, the ids it
  attaches are the ones SciPy returns for the points in the order given.
\<close>

lemma cluster_small:
  "length classifications < 2 \<Longrightarrow>
     cluster f classifications cutoff = cluster g classifications cutoff"
  by (simp add: cluster_def)

lemma cluster_ids:
  "2 \<le> length classifications \<Longrightarrow>
     map snd (cluster fcluster classifications cutoff)
       = take (length classifications)
           (fcluster (map (\<lambda>c. (x_mid c, y_mid c)) classifications) cutoff)"
  by (simp add: cluster_def Let_def map_snd_zip_take min_def)

subsection \<open>Condensing a cluster\<close>

lemma takeWhile_stops:
  "\<exists>v \<in> set vs. \<not> P v \<Longrightarrow> length (takeWhile P vs) < length vs"
  by (induction vs) auto

text \<open>\<open>argmax\<close> is the first position of the largest count.\<close>

lemma argmax_props:
  assumes "cnts \<noteq> []"
  shows "argmax cnts < length cnts"
    and "cnts ! argmax cnts = Max (set cnts)"
    and "\<And>j. j < argmax cnts \<Longrightarrow> cnts ! j \<noteq> Max (set cnts)"
proof -
  let ?P = "\<lambda>c. c \<noteq> Max (set cnts)"
  have "Max (set cnts) \<in> set cnts" using assms by (intro Max_in) auto
  then have "\<exists>c \<in> set cnts. \<not> ?P c" by auto
  then have lt: "length (takeWhile ?P cnts) < length cnts"
    by (rule takeWhile_stops)
  then show "argmax cnts < length cnts" by (simp add: argmax_def)
  from nth_length_takeWhile [OF lt] show "cnts ! argmax cnts = Max (set cnts)"
    by (simp add: argmax_def)
  fix j assume "j < argmax cnts"
  then have j: "j < length (takeWhile ?P cnts)" by (simp add: argmax_def)
  then have "takeWhile ?P cnts ! j \<in> set (takeWhile ?P cnts)" by (rule nth_mem)
  then have "?P (takeWhile ?P cnts ! j)" by (rule set_takeWhileD [THEN conjunct2])
  with j show "cnts ! j \<noteq> Max (set cnts)" by (simp add: takeWhile_nth)
qed

text \<open>
  The mode is a most frequent value, and the smallest of the most frequent values.
\<close>

lemma stats_mode_props:
  assumes "vs \<noteq> []"
  shows "stats_mode vs \<in> set vs"
    and "\<And>v. v \<in> set vs \<Longrightarrow> count_list vs v \<le> count_list vs (stats_mode vs)"
    and "\<And>v. v \<in> set vs \<Longrightarrow> count_list vs v = count_list vs (stats_mode vs)
           \<Longrightarrow> stats_mode vs \<le> v"
proof -
  define vals where "vals = sort (remdups vs)"
  define cnts where "cnts = map (count_list vs) vals"
  define i where "i = argmax cnts"
  have m: "stats_mode vs = vals ! i"
    by (simp add: stats_mode_def vals_def cnts_def i_def Let_def)
  have sv: "set vals = set vs" and so: "sorted vals" and len: "length cnts = length vals"
    by (simp_all add: vals_def cnts_def)
  from assms sv have ne: "cnts \<noteq> []" by (auto simp: cnts_def)
  note am = argmax_props [OF ne, folded i_def]
  from am(1) len have i: "i < length vals" by simp
  then show "stats_mode vs \<in> set vs" using sv m by (metis nth_mem)
  have ci: "count_list vs (vals ! i) = Max (set cnts)"
    using am(2) i by (simp add: cnts_def)
  { fix v assume "v \<in> set vs"
    then obtain j where j: "j < length vals" and v: "v = vals ! j"
      using sv by (metis in_set_conv_nth)
    have cj: "count_list vs v = cnts ! j" using j v by (simp add: cnts_def)
    have "cnts ! j \<in> set cnts" using j len by simp
    then have "cnts ! j \<le> Max (set cnts)" by simp
    then show "count_list vs v \<le> count_list vs (stats_mode vs)"
      using cj ci m by simp
    assume "count_list vs v = count_list vs (stats_mode vs)"
    then have "cnts ! j = Max (set cnts)" using cj ci m by simp
    then have "\<not> j < i" using am(3) by blast
    then have "i \<le> j" by simp
    then have "vals ! i \<le> vals ! j" using so j by (simp add: sorted_nth_mono)
    then show "stats_mode vs \<le> v" using m v by simp
  }
qed

text \<open>
  Claim C7. On a cluster that is not empty \<^verbatim>\<open>condense\<close> returns a row (it does not
  raise): its position and its size are the arithmetic means of the members' columns;
  its confidence is a member's confidence and no member has a larger one; its class is a
  member's class that no other class outnumbers, and among classes that occur equally
  often it is the lowest; on a cluster of one row all six columns are those of that row.
\<close>

theorem condense_mean_max_majority:
  assumes "rows \<noteq> []"
  shows "\<exists>r. condense rows = Inr r
     \<and> x_mid r = sum_list (map x_mid rows) / real (length rows)
     \<and> y_mid r = sum_list (map y_mid rows) / real (length rows)
     \<and> x_wid r = sum_list (map x_wid rows) / real (length rows)
     \<and> y_wid r = sum_list (map y_wid rows) / real (length rows)
     \<and> conf r \<in> conf ` set rows \<and> (\<forall>c \<in> set rows. conf c \<le> conf r)
     \<and> cls r \<in> cls ` set rows
     \<and> (\<forall>c \<in> set rows. count_list (map cls rows) (cls c) \<le> count_list (map cls rows) (cls r))
     \<and> (\<forall>c \<in> set rows. count_list (map cls rows) (cls c) = count_list (map cls rows) (cls r)
            \<longrightarrow> cls r \<le> cls c)
     \<and> (\<forall>d. rows = [d] \<longrightarrow> x_mid r = x_mid d \<and> y_mid r = y_mid d \<and> conf r = conf d
            \<and> cls r = cls d \<and> x_wid r = x_wid d \<and> y_wid r = y_wid d)"
proof -
  let ?cs = "map cls rows"
  define r where "r = \<lparr>x_mid = mean (map x_mid rows), y_mid = mean (map y_mid rows),
    conf = Max (set (map conf rows)), cls = stats_mode ?cs,
    x_wid = mean (map x_wid rows), y_wid = mean (map y_wid rows)\<rparr>"
  from assms have ne: "?cs \<noteq> []" by simp
  note sm = stats_mode_props [OF ne]
  have c: "condense rows = Inr r"
    using assms by (simp add: condense_def r_def)
  have means: "x_mid r = sum_list (map x_mid rows) / real (length rows)"
    "y_mid r = sum_list (map y_mid rows) / real (length rows)"
    "x_wid r = sum_list (map x_wid rows) / real (length rows)"
    "y_wid r = sum_list (map y_wid rows) / real (length rows)"
    by (simp_all add: r_def mean_def)
  have "Max (set (map conf rows)) \<in> set (map conf rows)"
    using assms by (intro Max_in) auto
  then have mx: "conf r \<in> conf ` set rows" by (simp add: r_def)
  have ge: "\<forall>c \<in> set rows. conf c \<le> conf r" by (simp add: r_def)
  have cl: "cls r \<in> cls ` set rows" using sm(1) by (simp add: r_def)
  have maj: "\<forall>c \<in> set rows. count_list ?cs (cls c) \<le> count_list ?cs (cls r)"
    using sm(2) by (simp add: r_def)
  have tie: "\<forall>c \<in> set rows. count_list ?cs (cls c) = count_list ?cs (cls r) \<longrightarrow> cls r \<le> cls c"
    using sm(3) by (simp add: r_def)
  have single: "\<forall>d. rows = [d] \<longrightarrow> x_mid r = x_mid d \<and> y_mid r = y_mid d \<and> conf r = conf d
            \<and> cls r = cls d \<and> x_wid r = x_wid d \<and> y_wid r = y_wid d"
  proof (intro allI impI)
    fix d assume d: "rows = [d]"
    with sm(1) have "stats_mode ?cs = cls d" by simp
    with d show "x_mid r = x_mid d \<and> y_mid r = y_mid d \<and> conf r = conf d
            \<and> cls r = cls d \<and> x_wid r = x_wid d \<and> y_wid r = y_wid d"
      by (simp add: r_def mean_def)
  qed
  from c means mx ge cl maj tie single show ?thesis by blast
qed

text \<open>
  Two detections at \<open>(100, 100)\<close> and \<open>(103, 101)\<close> with confidences \<open>0.6\<close> and
  \<open>0.9\<close>, one of each class: the mean position, the larger confidence and, the two
  classes being tied, class \<open>0\<close>.
\<close>

theorem condense_mean_max_majority_witness:
  "[\<lparr>x_mid = 100, y_mid = 100, conf = 3 / 5, cls = 1, x_wid = 4, y_wid = 6\<rparr>,
    \<lparr>x_mid = 103, y_mid = 101, conf = 9 / 10, cls = 0, x_wid = 8, y_wid = 6\<rparr>] \<noteq> []
   \<and> condense [\<lparr>x_mid = 100, y_mid = 100, conf = 3 / 5, cls = 1, x_wid = 4, y_wid = 6\<rparr>,
                \<lparr>x_mid = 103, y_mid = 101, conf = 9 / 10, cls = 0, x_wid = 8, y_wid = 6\<rparr>]
       = Inr \<lparr>x_mid = 203 / 2, y_mid = 201 / 2, conf = 9 / 10, cls = 0, x_wid = 6, y_wid = 6\<rparr>"
  using condense_mean_max_majority
    [of "[\<lparr>x_mid = 100, y_mid = 100, conf = 3 / 5, cls = 1, x_wid = 4, y_wid = 6\<rparr>,
          \<lparr>x_mid = 103, y_mid = 101, conf = 9 / 10, cls = 0, x_wid = 8, y_wid = 6\<rparr>]"]
  by (simp add: condense_def mean_def stats_mode_def argmax_def)

end
